theory Spec2Isabelle
  imports Complex_Main "HOL-Library.Log_Nat"
begin

section \<open>The autonomous node of hg_dagger.py\<close>

text \<open>
  A shallow embedding of the class \<open>AutonomousNode\<close> of \<open>src/hg_dagger.py\<close>.

  Python floats (binary64) and the float32 values of the scans are modelled as \<open>real\<close>:
  their rounding, NaN and infinities are not part of the model. The stamps are different:
  \<open>dnn_output\<close> casts them from binary64 to float32, which at the size of an epoch stamp
  has a step of 128 seconds, so this cast and the float32 arithmetic on the stamps are
  modelled by the rounding function \<open>float32\<close>. The node's fields become a record; every callback
  becomes a function from the node to the node. What the callbacks receive from outside
  (messages, the wall clock, the success or failure of a call into the bag writer, the
  output of the TFLite interpreter) is an argument of the function. An exception is a
  value of type \<open>exn\<close>; every \<open>try ... except Exception\<close> of the source is a case
  distinction on it.

  Not modelled: \<open>odom_callback\<close> and \<open>total_distance\<close>, the deadline check at the
  end of \<open>control_loop\<close> and \<open>recorded_ts\<close> (wall-clock time), \<open>plot_results\<close>, and
  the loading of the model file in \<open>__init__\<close>. Logging, publishing and the access to
  the parameter \<open>is_joy\<close> are taken not to raise.
\<close>

subsection \<open>Data\<close>

text \<open>The subclasses of Python's \<open>Exception\<close> that the modelled code can raise.\<close>

datatype exn = IndexError | ValueError | AttributeError | RuntimeError | ZeroDivisionError

type_synonym scan = "real list"

text \<open>
  The model input without its batch dimension: \<open>seq_len\<close> rows of \<open>num_ranges\<close> pairs
  (channel 0: the range, channel 1: the time delta).
\<close>

type_synonym tensor = "(real \<times> real) list list"

text \<open>
  The interpreter, from \<open>invoke()\<close> to \<open>get_tensor(self.output_details[0]['index'])[0]\<close>:
  the output vector, or the exception one of these calls raises.
\<close>

type_synonym interpreter = "tensor \<Rightarrow> exn + real list"

type_synonym payload = "nat list"

text \<open>The \<open>SequentialWriter\<close> of rosbag2: the bag it opened, its topics, what was written.\<close>

record sequential_writer =
  uri :: nat
  topics :: "(string \<times> string) list"
  written :: "(string \<times> payload \<times> nat) list"

text \<open>
  The calls of \<open>self.get_logger()\<close>, one constructor per message of the source, at
  every level (debug to error). Of the formatted text a constructor keeps the integers and
  the exception.
\<close>

datatype log_entry =
    LidarError exn
  | ButtonError exn
  | BagOpened nat
  | BagClosed nat
  | MsgProgress nat
  | WriteError exn
  | NotEnoughScans nat nat
  | NonMonotonic
  | InputShape nat nat
  | InputRange
  | InferenceDone
  | DnnError exn
  | ManualStatus bool
  | ControlError exn

record drive =
  speed :: real
  steering_angle :: real

record node =
  seq_len :: nat
  num_ranges :: nat
  num_ch :: nat
  buff_scans :: "scan list"
  buff_ts :: "real list"
  is_joy :: bool
  prev_button :: int
  bag_open :: bool
  writer :: "sequential_writer option"
  recording_active :: bool
  msg_counter :: nat
  drive_pub :: "drive list"
  recorded_speed :: "real list"
  recorded_steer :: "real list"
  interp_calls :: "tensor list"
  logger :: "log_entry list"

text \<open>
  \<open>drive_pub\<close> is the sequence of messages published on \<open>/drive\<close>, \<open>interp_calls\<close>
  the sequence of tensors on which \<open>self.interpreter.invoke()\<close> has run, \<open>logger\<close> the
  sequence of log messages; all three oldest first.

  What the environment decides when a callback runs: the wall clock (\<open>int(time.time())\<close>)
  and whether a call into the bag writer raises.
\<close>

datatype open_outcome = OpenOk | CtorRaises | OpenRaises | CreateTopicRaises nat

record env =
  now :: nat
  open_result :: open_outcome
  close_raises :: bool

text \<open>\<open>__init__\<close>, lines 66 to 77, for a model of input shape \<open>(1, n, r, c)\<close>.\<close>

definition init :: "nat \<Rightarrow> nat \<Rightarrow> nat \<Rightarrow> node" where
  "init n r c =
     \<lparr>seq_len = n, num_ranges = r, num_ch = c, buff_scans = [], buff_ts = [],
      is_joy = False, prev_button = 0, bag_open = False, writer = None,
      recording_active = False, msg_counter = 0, drive_pub = [],
      recorded_speed = [], recorded_steer = [], interp_calls = [], logger = []\<rparr>"

subsection \<open>The temporal buffer\<close>

text \<open>
  \<open>deque(maxlen=n).append(x)\<close>: the element is appended on the right, and when the
  deque is then longer than \<open>maxlen\<close> its leftmost element is removed.
\<close>

definition deque_append :: "nat \<Rightarrow> 'a list \<Rightarrow> 'a \<Rightarrow> 'a list" where
  "deque_append maxlen q x =
     (let q' = q @ [x] in if maxlen < length q' then tl q' else q')"

text \<open>
  \<open>lidar_callback\<close>. Lines 148 to 150 (numpy's \<open>nan_to_num\<close>, \<open>linspace\<close> and fancy
  indexing) are floating-point operations outside the model: their result, the cleaned and
  subsampled scan or the exception they raise, is the argument \<open>pre\<close>; \<open>t\<close> is the
  stamp of the message in seconds.
\<close>

definition lidar_callback :: "exn + scan \<Rightarrow> real \<Rightarrow> node \<Rightarrow> node" where
  "lidar_callback pre t s =
     (case pre of
        Inl e \<Rightarrow> s\<lparr>logger := logger s @ [LidarError e]\<rparr>
      | Inr sc \<Rightarrow>
          s\<lparr>buff_scans := deque_append (seq_len s) (buff_scans s) sc,
            buff_ts := deque_append (seq_len s) (buff_ts s) t\<rparr>)"

text \<open>
  Lines 248 to 255 of \<open>dnn_output\<close>: under the lock, either the buffer is too short or
  both deques are copied.
\<close>

definition snapshot :: "node \<Rightarrow> (scan list \<times> real list) option" where
  "snapshot s =
     (if length (buff_scans s) < seq_len s then None
      else Some (buff_scans s, buff_ts s))"

subsection \<open>Inference\<close>

text \<open>\<open>np.stack(scans_list, axis=0)\<close>: the list must not be empty and all rows have one shape.\<close>

definition np_stack :: "scan list \<Rightarrow> exn + scan list" where
  "np_stack rows =
     (case rows of
        [] \<Rightarrow> Inl ValueError
      | r # rs \<Rightarrow>
          if list_all (\<lambda>x. length x = length r) rs then Inr rows else Inl ValueError)"

text \<open>
  Rounding to float32 (binary32, round to nearest, ties to even). \<open>pow2 k\<close> is
  \<open>2\<close> to the power \<open>k\<close>; \<open>expo a\<close> is, for positive \<open>a\<close>, the exponent \<open>e\<close> with
  \<open>2 ^ e \<le> a < 2 ^ (e + 1)\<close>. A float32 has 24 significant bits, so the values next to
  \<open>x\<close> are the multiples of \<open>2 ^ (e - 23)\<close>, with \<open>e\<close> at least \<open>-126\<close> (below that
  the subnormal numbers keep the step \<open>2 ^ -149\<close>). Overflow to an infinity (magnitudes
  from \<open>2 ^ 128\<close>) is not modelled: a stamp is a 32-bit number of seconds.
\<close>

definition pow2 :: "int \<Rightarrow> real" where
  "pow2 k = (if 0 \<le> k then 2 ^ nat k else 1 / 2 ^ nat (- k))"

definition expo :: "real \<Rightarrow> int" where
  "expo a = (if 1 \<le> a then bitlen \<lfloor>a\<rfloor> - 1 else - bitlen (\<lceil>1 / a\<rceil> - 1))"

definition round_even :: "real \<Rightarrow> int" where
  "round_even r =
     (let f = \<lfloor>r\<rfloor>; d = r - of_int f in
      if d < 1 / 2 then f else if 1 / 2 < d then f + 1 else if even f then f else f + 1)"

definition float32 :: "real \<Rightarrow> real" where
  "float32 x =
     (if x = 0 then 0
      else let u = pow2 (max (expo \<bar>x\<bar>) (- 126) - 23) in of_int (round_even (x / u)) * u)"

text \<open>
  \<open>np.diff(ts)\<close> on a float32 array, that is \<open>ts[1:] - ts[:-1]\<close> with every
  difference rounded to float32.
\<close>

definition np_diff :: "real list \<Rightarrow> real list" where
  "np_diff ts = map (\<lambda>(a, b). float32 (b - a)) (zip ts (tl ts))"

text \<open>\<open>np.all(np.diff(ts) >= 0)\<close>.\<close>

definition monotonic :: "real list \<Rightarrow> bool" where
  "monotonic ts = list_all (\<lambda>d. 0 \<le> d) (np_diff ts)"

text \<open>
  Lines 269 to 274, the source's \<open>diffs\<close>, for the float32 array \<open>ts\<close>: the
  differences, or \<open>np.ones(self.seq_len-1, dtype=np.float32) * 0.025\<close>, a float32 array
  again, which raises for a negative length.
\<close>

definition ts_diffs :: "nat \<Rightarrow> real list \<Rightarrow> exn + real list" where
  "ts_diffs n ts =
     (if \<not> monotonic ts then
        (if n = 0 then Inl ValueError else Inr (replicate (n - 1) (float32 (25 / 1000))))
      else Inr (np_diff ts))"

text \<open>
  Lines 277 and 278: \<open>dt_full = np.zeros(n); dt_full[1:] = d\<close>. The slice has
  \<open>n - 1\<close> elements (none when \<open>n = 0\<close>); numpy copies a value of that length,
  broadcasts a value of length 1, and raises otherwise.
\<close>

definition dt_full :: "nat \<Rightarrow> real list \<Rightarrow> exn + real list" where
  "dt_full n d =
     (if length d = n - 1 then Inr (take n (0 # d))
      else if length d = 1 then Inr (take n (0 # replicate (n - 1) (hd d)))
      else Inl ValueError)"

text \<open>
  Line 266, \<open>ts = np.array(ts_list, dtype=np.float32)\<close>: every stamp is rounded to
  float32.
\<close>

definition ts_array :: "real list \<Rightarrow> real list" where
  "ts_array ts_list = map float32 ts_list"

text \<open>Lines 266 to 278 together, from the stamps of the snapshot to \<open>dt_full\<close>.\<close>

definition deltas :: "nat \<Rightarrow> real list \<Rightarrow> exn + real list" where
  "deltas n ts_list =
     (case ts_diffs n (ts_array ts_list) of Inl e \<Rightarrow> Inl e | Inr d \<Rightarrow> dt_full n d)"

text \<open>
  Lines 281 to 287: the deltas are repeated across the ranges and stacked with the scans;
  both arrays must have one shape.
\<close>

definition build_input :: "nat \<Rightarrow> nat \<Rightarrow> scan list \<Rightarrow> real list \<Rightarrow> exn + tensor" where
  "build_input n r scans dt =
     (let dt_tiled = map (replicate r) dt in
      if length scans = n \<and> list_all (\<lambda>row. length row = r) scans
      then Inr (map (\<lambda>(a, b). zip a b) (zip scans dt_tiled))
      else Inl ValueError)"

text \<open>
  The body of the \<open>try\<close> of \<open>dnn_output\<close>: the value returned or the exception raised,
  with the node as the body leaves it. The check for NaN and Inf in the stacked scans is
  the identity on reals. \<open>np.min(inp)\<close> in the second debug message raises on an array
  without elements, and \<open>set_tensor\<close> raises when the model does not take two channels.
\<close>

definition dnn_body :: "interpreter \<Rightarrow> node \<Rightarrow> (exn + real \<times> real) \<times> node" where
  "dnn_body interp s =
     (case snapshot s of
        None \<Rightarrow>
          (Inr (0, 0),
           s\<lparr>logger := logger s @ [NotEnoughScans (length (buff_scans s)) (seq_len s)]\<rparr>)
      | Some (scans_list, ts_list) \<Rightarrow>
          (case np_stack scans_list of
             Inl e \<Rightarrow> (Inl e, s)
           | Inr scans \<Rightarrow>
               let s1 = (if \<not> monotonic (ts_array ts_list)
                         then s\<lparr>logger := logger s @ [NonMonotonic]\<rparr> else s) in
               (case deltas (seq_len s) ts_list of
                  Inl e \<Rightarrow> (Inl e, s1)
                | Inr dt \<Rightarrow>
                    (case build_input (seq_len s) (num_ranges s) scans dt of
                       Inl e \<Rightarrow> (Inl e, s1)
                     | Inr inp \<Rightarrow>
                         let s2 = s1\<lparr>logger := logger s1 @
                                    [InputShape (seq_len s) (num_ranges s)]\<rparr> in
                         if seq_len s * num_ranges s = 0 then (Inl ValueError, s2)
                         else
                           let s3 = s2\<lparr>logger := logger s2 @ [InputRange]\<rparr> in
                           if num_ch s \<noteq> 2 then (Inl ValueError, s3)
                           else
                             let s4 = s3\<lparr>interp_calls := interp_calls s3 @ [inp]\<rparr> in
                             (case interp inp of
                                Inl e \<Rightarrow> (Inl e, s4)
                              | Inr out \<Rightarrow>
                                  let s5 = s4\<lparr>logger := logger s4 @ [InferenceDone]\<rparr> in
                                  if length out < 2 then (Inl IndexError, s5)
                                  else (Inr (out ! 0, out ! 1), s5))))))"

text \<open>\<open>dnn_output\<close>: the body, and the \<open>except Exception\<close> around it. It returns (steer, speed).\<close>

definition dnn_output :: "interpreter \<Rightarrow> node \<Rightarrow> (real \<times> real) \<times> node" where
  "dnn_output interp s =
     (case dnn_body interp s of
        (Inr v, s') \<Rightarrow> (v, s')
      | (Inl e, s') \<Rightarrow> ((0, 0), s'\<lparr>logger := logger s' @ [DnnError e]\<rparr>))"

subsection \<open>Denormalization\<close>

text \<open>Python's \<open>/\<close> on floats raises when the divisor is zero.\<close>

definition py_div :: "real \<Rightarrow> real \<Rightarrow> exn + real" where
  "py_div a b = (if b = 0 then Inl ZeroDivisionError else Inr (a / b))"

definition linear_map :: "real \<Rightarrow> real \<Rightarrow> real \<Rightarrow> real \<Rightarrow> real \<Rightarrow> exn + real" where
  "linear_map x x_min x_max y_min y_max =
     (if x_max = x_min then Inr ((y_max + y_min) / 2)
      else
        (case py_div (x - x_min) (x_max - x_min) of
           Inl e \<Rightarrow> Inl e
         | Inr q \<Rightarrow> Inr (q * (y_max - y_min) + y_min)))"

subsection \<open>The bag\<close>

definition bag_topics :: "(string \<times> string) list" where
  "bag_topics =
     [(''odom'', ''nav_msgs/msg/Odometry''),
      (''pf_odom'', ''nav_msgs/msg/Odometry''),
      (''scan'', ''sensor_msgs/msg/LaserScan''),
      (''pose'', ''geometry_msgs/msg/PoseStamped''),
      (''imu_raw'', ''sensor_msgs/msg/Imu''),
      (''imu'', ''vesc_msgs/msg/VescImuStamped'')]"

text \<open>
  \<open>_open_bag\<close>: the exception raised, if any, and the node. The three fields at the end
  are assigned only when every call into the writer has returned.
\<close>

definition open_bag :: "env \<Rightarrow> node \<Rightarrow> exn option \<times> node" where
  "open_bag ev s =
     (let s1 = s\<lparr>logger := logger s @ [BagOpened (now ev)]\<rparr>;
          w = \<lparr>uri = now ev, topics = [], written = []\<rparr> in
      case open_result ev of
        CtorRaises \<Rightarrow> (Some RuntimeError, s1)
      | OpenRaises \<Rightarrow> (Some RuntimeError, s1\<lparr>writer := Some w\<rparr>)
      | CreateTopicRaises k \<Rightarrow>
          (Some RuntimeError, s1\<lparr>writer := Some (w\<lparr>topics := take k bag_topics\<rparr>)\<rparr>)
      | OpenOk \<Rightarrow>
          (None, s1\<lparr>writer := Some (w\<lparr>topics := bag_topics\<rparr>),
                    bag_open := True, msg_counter := 0, recording_active := True\<rparr>))"

text \<open>\<open>_close_bag\<close>.\<close>

definition close_bag :: "env \<Rightarrow> node \<Rightarrow> exn option \<times> node" where
  "close_bag ev s =
     (case writer s of
        Some w \<Rightarrow>
          if close_raises ev then (Some RuntimeError, s)
          else (None, s\<lparr>logger := logger s @ [BagClosed (msg_counter s)],
                        bag_open := False, recording_active := False, writer := None\<rparr>)
      | None \<Rightarrow> (None, s\<lparr>bag_open := False, recording_active := False, writer := None\<rparr>))"

text \<open>
  \<open>sensor_cb\<close>: \<open>t\<close> is the clock in nanoseconds; \<open>fault = Some k\<close> says that the
  write number \<open>k\<close> (from 0) raises. On an absent writer the first
  \<open>self.writer.write\<close> raises AttributeError.
\<close>

definition sensor_cb ::
  "payload \<Rightarrow> payload \<Rightarrow> payload \<Rightarrow> payload \<Rightarrow> payload \<Rightarrow> payload \<Rightarrow> nat \<Rightarrow> nat option
     \<Rightarrow> node \<Rightarrow> node" where
  "sensor_cb odom pf_odom scan pose imu_raw imu t fault s =
     (if \<not> recording_active s then s
      else
        (case writer s of
           None \<Rightarrow> s\<lparr>logger := logger s @ [WriteError AttributeError]\<rparr>
         | Some w \<Rightarrow>
             let recs = [(''odom'', odom, t), (''pf_odom'', pf_odom, t), (''scan'', scan, t),
                         (''pose'', pose, t), (''imu_raw'', imu_raw, t), (''imu'', imu, t)] in
             (case fault of
                Some k \<Rightarrow>
                  s\<lparr>writer := Some (w\<lparr>written := written w @ take k recs\<rparr>),
                    logger := logger s @ [WriteError RuntimeError]\<rparr>
              | None \<Rightarrow>
                  let s1 = s\<lparr>writer := Some (w\<lparr>written := written w @ recs\<rparr>),
                             msg_counter := msg_counter s + 1\<rparr> in
                  if msg_counter s1 mod 10 = 0
                  then s1\<lparr>logger := logger s1 @ [MsgProgress (msg_counter s1)]\<rparr>
                  else s1)))"

subsection \<open>The mode toggle\<close>

text \<open>
  Lines 168 to 174 of \<open>button_callback\<close>: entering manual mode opens a bag, or
  resumes recording when one is open; leaving it closes the bag.
\<close>

definition toggle_bag :: "bool \<Rightarrow> env \<Rightarrow> node \<Rightarrow> exn option \<times> node" where
  "toggle_bag new_val ev s =
     (if new_val
      then (if \<not> bag_open s then open_bag ev s
            else (None, s\<lparr>recording_active := True\<rparr>))
      else close_bag ev s)"

text \<open>
  \<open>button_callback\<close>: \<open>buttons\<close> is \<open>msg.buttons\<close>, and \<open>cur\<close> stands for
  the source's \<open>curr\<close>.
\<close>

definition button_callback :: "int list \<Rightarrow> env \<Rightarrow> node \<Rightarrow> node" where
  "button_callback buttons ev s =
     (case buttons of
        [] \<Rightarrow> s\<lparr>logger := logger s @ [ButtonError IndexError]\<rparr>
      | cur # rest \<Rightarrow>
          if cur = 1 \<and> cur \<noteq> prev_button s then
            (let new_val = \<not> is_joy s;
                 s1 = s\<lparr>is_joy := new_val\<rparr> in
             case toggle_bag new_val ev s1 of
               (Some e, s2) \<Rightarrow> s2\<lparr>logger := logger s2 @ [ButtonError e]\<rparr>
             | (None, s2) \<Rightarrow> s2\<lparr>prev_button := cur\<rparr>)
          else s\<lparr>prev_button := cur\<rparr>)"

subsection \<open>The control loop\<close>

text \<open>Lines 330 to 345: the command of one autonomous tick.\<close>

definition autonomous_tick :: "interpreter \<Rightarrow> node \<Rightarrow> exn option \<times> node" where
  "autonomous_tick interp s =
     (case dnn_output interp s of
        ((raw_steer, raw_speed), s1) \<Rightarrow>
          (case linear_map raw_speed 0 1 (- (5 / 10)) 7 of
             Inl e \<Rightarrow> (Some e, s1)
           | Inr speed' \<Rightarrow>
               (case linear_map raw_steer (- 1) 1 (- (34 / 100)) (34 / 100) of
                  Inl e \<Rightarrow> (Some e, s1)
                | Inr steer' \<Rightarrow>
                    let msg = \<lparr>speed = speed' * (12 / 10), steering_angle = steer'\<rparr> in
                    (None, s1\<lparr>drive_pub := drive_pub s1 @ [msg],
                              recorded_speed := recorded_speed s1 @ [speed msg],
                              recorded_steer := recorded_steer s1 @ [steering_angle msg]\<rparr>))))"

text \<open>Lines 319 to 323 of \<open>control_loop\<close>: the bag follows the mode.\<close>

definition sync_bag :: "env \<Rightarrow> node \<Rightarrow> exn option \<times> node" where
  "sync_bag ev s =
     (let joy = is_joy s in
      if joy \<and> \<not> bag_open s then open_bag ev s
      else if \<not> joy \<and> bag_open s then close_bag ev s
      else (None, s))"

text \<open>\<open>control_loop\<close>.\<close>

definition control_loop :: "interpreter \<Rightarrow> env \<Rightarrow> node \<Rightarrow> node" where
  "control_loop interp ev s =
     (let joy = is_joy s in
      case sync_bag ev s of
        (Some e, s1) \<Rightarrow> s1\<lparr>logger := logger s1 @ [ControlError e]\<rparr>
      | (None, s1) \<Rightarrow>
          let s2 = s1\<lparr>logger := logger s1 @ [ManualStatus joy]\<rparr> in
          if \<not> joy then
            (case autonomous_tick interp s2 of
               (Some e, s3) \<Rightarrow> s3\<lparr>logger := logger s3 @ [ControlError e]\<rparr>
             | (None, s3) \<Rightarrow> s3)
          else s2)"

text \<open>\<open>destroy_node\<close>; an exception of \<open>_close_bag\<close> is not caught here.\<close>

definition destroy_node :: "env \<Rightarrow> node \<Rightarrow> exn option \<times> node" where
  "destroy_node ev s = close_bag ev s"

subsection \<open>Runs\<close>

text \<open>
  The executor runs one callback at a time. An event is one callback with what it
  receives; \<open>SetParam\<close> is a change of the parameter \<open>is_joy\<close> from outside the node,
  \<open>Shutdown\<close> the call of \<open>destroy_node\<close> in \<open>main\<close>.
\<close>

datatype event =
    Scan "exn + scan" real
  | Joy "int list" env
  | Synced payload payload payload payload payload payload nat "nat option"
  | Tick env
  | SetParam bool
  | Shutdown env

fun step :: "interpreter \<Rightarrow> node \<Rightarrow> event \<Rightarrow> node" where
  "step interp s (Scan pre t) = lidar_callback pre t s"
| "step interp s (Joy buttons ev) = button_callback buttons ev s"
| "step interp s (Synced a b c d e f t fault) = sensor_cb a b c d e f t fault s"
| "step interp s (Tick ev) = control_loop interp ev s"
| "step interp s (SetParam b) = s\<lparr>is_joy := b\<rparr>"
| "step interp s (Shutdown ev) = snd (destroy_node ev s)"

definition run :: "interpreter \<Rightarrow> node \<Rightarrow> event list \<Rightarrow> node" where
  "run interp s evs = foldl (step interp) s evs"

text \<open>The scans and stamps that a run pushes into the buffer, in the order of arrival.\<close>

fun pushed :: "event list \<Rightarrow> (scan \<times> real) list" where
  "pushed [] = []"
| "pushed (Scan (Inr sc) t # evs) = (sc, t) # pushed evs"
| "pushed (e # evs) = pushed evs"

text \<open>
  The session is closed when the node holds what \<open>__init__\<close> and \<open>_close_bag\<close>
  assign: no bag, no writer, no recording.
\<close>

definition session_closed :: "node \<Rightarrow> bool" where
  "session_closed s \<longleftrightarrow> \<not> bag_open s \<and> writer s = None \<and> \<not> recording_active s"

text \<open>How often \<open>_open_bag\<close> has run: it logs its first line on every call.\<close>

fun is_bag_opened :: "log_entry \<Rightarrow> bool" where
  "is_bag_opened (BagOpened u) = True"
| "is_bag_opened e = False"

definition opens :: "node \<Rightarrow> nat" where
  "opens s = length (filter is_bag_opened (logger s))"

text \<open>
  \<open>sensor_cb\<close> has called \<open>write\<close> on an absent writer: nothing else logs a write
  error with an AttributeError.
\<close>

definition absent_writer_error :: "node \<Rightarrow> bool" where
  "absent_writer_error s \<longleftrightarrow> WriteError AttributeError \<in> set (logger s)"

text \<open>The recording state is consistent: recording needs an open bag, an open bag a writer.\<close>

definition bag_inv :: "node \<Rightarrow> bool" where
  "bag_inv s \<longleftrightarrow>
     (recording_active s \<longrightarrow> bag_open s) \<and> (bag_open s \<longrightarrow> writer s \<noteq> None)"

section \<open>Auxiliary lemmas\<close>

subsection \<open>Rounding to float32\<close>

lemma pow2_pos: "0 < pow2 k"
  by (simp add: pow2_def)

lemma pow2_nat: "0 \<le> k \<Longrightarrow> pow2 k = 2 ^ nat k"
  by (simp add: pow2_def)

lemma pow2_neg: "0 \<le> k \<Longrightarrow> pow2 (- k) = 1 / 2 ^ nat k"
  by (cases "k = 0") (simp_all add: pow2_def)

text \<open>The exponent is the right one: a positive \<open>a\<close> lies in the binade of \<open>expo a\<close>.\<close>

lemma expo_bounds:
  assumes "0 < a"
  shows "pow2 (expo a) \<le> a \<and> a < pow2 (expo a + 1)"
proof (cases "1 \<le> a")
  case True
  define m where "m = \<lfloor>a\<rfloor>"
  from True have m: "0 < m" by (simp add: m_def)
  then have b: "1 \<le> bitlen m" by (auto simp: bitlen_alt_def)
  from bitlen_bounds [OF m] have lo: "2 ^ nat (bitlen m - 1) \<le> m" and hi: "m < 2 ^ nat (bitlen m)"
    by simp_all
  have e: "expo a = bitlen m - 1" using True by (simp add: expo_def m_def)
  from lo have "(2::real) ^ nat (bitlen m - 1) \<le> of_int m"
    by (metis of_int_le_iff of_int_numeral of_int_power)
  also have "of_int m \<le> a" by (simp add: m_def)
  finally have 1: "pow2 (expo a) \<le> a" using b by (simp add: e pow2_nat)
  from hi have "m + 1 \<le> 2 ^ nat (bitlen m)" by simp
  then have "of_int (m + 1) \<le> (2::real) ^ nat (bitlen m)"
    by (metis of_int_le_iff of_int_numeral of_int_power)
  moreover have "a < of_int (m + 1)" by (simp add: m_def)
  ultimately have "a < 2 ^ nat (bitlen m)" by (rule less_le_trans [rotated])
  then have 2: "a < pow2 (expo a + 1)" using b by (simp add: e pow2_nat)
  from 1 2 show ?thesis ..
next
  case False
  define c where "c = \<lceil>1 / a\<rceil>"
  define k where "k = bitlen (c - 1)"
  from False assms have y: "1 < 1 / a" by simp
  then have c: "2 \<le> c" unfolding c_def by (simp add: le_ceiling_iff)
  then have c1: "0 < c - 1" by simp
  then have k: "1 \<le> k" by (auto simp: k_def bitlen_alt_def)
  from bitlen_bounds [OF c1] have lo: "2 ^ nat (k - 1) \<le> c - 1" and hi: "c - 1 < 2 ^ nat k"
    by (simp_all add: k_def)
  have e: "expo a = - k" using False by (simp add: expo_def c_def k_def)
  from hi have "c \<le> 2 ^ nat k" by simp
  then have "of_int c \<le> (2::real) ^ nat k" by simp
  moreover have "1 / a \<le> of_int c" by (simp add: c_def)
  ultimately have "1 / a \<le> 2 ^ nat k" by (rule order_trans [rotated])
  with assms have "1 / 2 ^ nat k \<le> a"
    by (simp add: field_simps)
  then have 1: "pow2 (expo a) \<le> a" using k by (simp add: e pow2_neg)
  from lo have "(2::real) ^ nat (k - 1) \<le> of_int (c - 1)"
    by (metis of_int_le_iff of_int_numeral of_int_power)
  moreover have "of_int (c - 1) < 1 / a" unfolding c_def by linarith
  ultimately have "2 ^ nat (k - 1) < 1 / a" by (rule le_less_trans)
  with assms have "a < 1 / 2 ^ nat (k - 1)"
    by (simp add: field_simps)
  moreover from k have "pow2 (expo a + 1) = 1 / 2 ^ nat (k - 1)"
    using pow2_neg [of "k - 1"] by (simp add: e)
  ultimately have 2: "a < pow2 (expo a + 1)" by simp
  from 1 2 show ?thesis ..
qed

lemmas float32_eval = float32_def expo_def pow2_def round_even_def Let_def compute_bitlen

lemma float32_zero [simp]: "float32 0 = 0"
  by (simp add: float32_def)

lemma float32_one [simp]: "float32 1 = 1"
  by (simp add: float32_eval)

text \<open>
  Small stamps keep their differences up to the rounding of the constants; stamps of the
  size of the wall clock all round to the same float32.
\<close>

lemma float32_tenth: "float32 (1 / 10) = 13421773 / 2 ^ 27"
  and float32_fifth: "float32 (2 / 10) = 13421773 / 2 ^ 26"
  and float32_period: "float32 (25 / 1000) = 13421773 / 2 ^ 29"
  by (simp_all add: float32_eval)

lemma float32_epoch:
  "float32 1700000000 = 1700000000"
  "float32 (17000000001 / 10) = 1700000000"
  "float32 (17000000003 / 10) = 1700000000"
  "float32 (1700000000 + 25 / 1000) = 1700000000"
  "float32 (1700000000 + 50 / 1000) = 1700000000"
  by (simp_all add: float32_eval)

subsection \<open>Buffer and deltas\<close>

text \<open>
  A deque that holds the last \<open>n\<close> elements of a list holds the last \<open>n\<close> after an append.
\<close>

lemma deque_append_drop:
  "deque_append n (drop (length xs - n) xs) x = drop (length (xs @ [x]) - n) (xs @ [x])"
proof (cases "length xs < n")
  case True
  then show ?thesis by (simp add: deque_append_def Let_def)
next
  case False
  define k where "k = length xs - n"
  from False have len: "length (drop k xs) = n" and k: "k \<le> length xs"
    by (simp_all add: k_def)
  from False have "length (xs @ [x]) - n = Suc k" by (simp add: k_def)
  then have "drop (length (xs @ [x]) - n) (xs @ [x]) = tl (drop k (xs @ [x]))"
    by (simp only: drop_Suc tl_drop)
  also from k have "drop k (xs @ [x]) = drop k xs @ [x]" by simp
  finally have rhs: "drop (length (xs @ [x]) - n) (xs @ [x]) = tl (drop k xs @ [x])" .
  from len have "deque_append n (drop k xs) x = tl (drop k xs @ [x])"
    by (simp add: deque_append_def Let_def)
  with rhs show ?thesis by (simp add: k_def)
qed

lemma length_np_diff: "length (np_diff ts) = length ts - 1"
  by (simp add: np_diff_def)

lemma monotonic_iff: "monotonic ts \<longleftrightarrow> \<not> list_ex (\<lambda>d. d < 0) (np_diff ts)"
  by (auto simp: monotonic_def list_all_iff list_ex_iff not_less)

lemma deltas_full:
  assumes "length ts = n" and "0 < n"
  shows "deltas n ts =
     Inr (0 # (if list_ex (\<lambda>d. d < 0) (np_diff (ts_array ts))
               then replicate (n - 1) (float32 (25 / 1000))
               else np_diff (ts_array ts)))"
  using assms
  by (simp add: deltas_def ts_diffs_def dt_full_def monotonic_iff length_np_diff ts_array_def)

lemma pushed_append: "pushed (xs @ ys) = pushed xs @ pushed ys"
  by (induction xs rule: pushed.induct) simp_all

subsection \<open>Fields that a callback leaves unchanged\<close>

lemma open_bag_frame:
  "seq_len (snd (open_bag ev s)) = seq_len s"
  "num_ranges (snd (open_bag ev s)) = num_ranges s"
  "num_ch (snd (open_bag ev s)) = num_ch s"
  "buff_scans (snd (open_bag ev s)) = buff_scans s"
  "buff_ts (snd (open_bag ev s)) = buff_ts s"
  "is_joy (snd (open_bag ev s)) = is_joy s"
  "drive_pub (snd (open_bag ev s)) = drive_pub s"
  "interp_calls (snd (open_bag ev s)) = interp_calls s"
  by (simp_all add: open_bag_def Let_def split: open_outcome.split)

lemma close_bag_frame:
  "seq_len (snd (close_bag ev s)) = seq_len s"
  "num_ranges (snd (close_bag ev s)) = num_ranges s"
  "num_ch (snd (close_bag ev s)) = num_ch s"
  "buff_scans (snd (close_bag ev s)) = buff_scans s"
  "buff_ts (snd (close_bag ev s)) = buff_ts s"
  "is_joy (snd (close_bag ev s)) = is_joy s"
  "drive_pub (snd (close_bag ev s)) = drive_pub s"
  "interp_calls (snd (close_bag ev s)) = interp_calls s"
  by (simp_all add: close_bag_def split: option.split)

lemma dnn_body_frame:
  "seq_len (snd (dnn_body interp s)) = seq_len s"
  "num_ranges (snd (dnn_body interp s)) = num_ranges s"
  "num_ch (snd (dnn_body interp s)) = num_ch s"
  "buff_scans (snd (dnn_body interp s)) = buff_scans s"
  "buff_ts (snd (dnn_body interp s)) = buff_ts s"
  "is_joy (snd (dnn_body interp s)) = is_joy s"
  "bag_open (snd (dnn_body interp s)) = bag_open s"
  "writer (snd (dnn_body interp s)) = writer s"
  "recording_active (snd (dnn_body interp s)) = recording_active s"
  "msg_counter (snd (dnn_body interp s)) = msg_counter s"
  "prev_button (snd (dnn_body interp s)) = prev_button s"
  "drive_pub (snd (dnn_body interp s)) = drive_pub s"
  by (simp_all add: dnn_body_def Let_def split: option.split sum.split prod.split)

lemma dnn_output_snd:
  "snd (dnn_output interp s) =
     (case fst (dnn_body interp s) of
        Inr v \<Rightarrow> snd (dnn_body interp s)
      | Inl e \<Rightarrow> (snd (dnn_body interp s))
          \<lparr>logger := logger (snd (dnn_body interp s)) @ [DnnError e]\<rparr>)"
  by (cases "dnn_body interp s") (simp add: dnn_output_def split: sum.split)

lemma dnn_output_fst:
  "fst (dnn_output interp s) =
     (case fst (dnn_body interp s) of Inr v \<Rightarrow> v | Inl e \<Rightarrow> (0, 0))"
  by (cases "dnn_body interp s") (simp add: dnn_output_def split: sum.split)

lemma dnn_output_frame:
  "seq_len (snd (dnn_output interp s)) = seq_len s"
  "num_ranges (snd (dnn_output interp s)) = num_ranges s"
  "num_ch (snd (dnn_output interp s)) = num_ch s"
  "buff_scans (snd (dnn_output interp s)) = buff_scans s"
  "buff_ts (snd (dnn_output interp s)) = buff_ts s"
  "is_joy (snd (dnn_output interp s)) = is_joy s"
  "bag_open (snd (dnn_output interp s)) = bag_open s"
  "writer (snd (dnn_output interp s)) = writer s"
  "recording_active (snd (dnn_output interp s)) = recording_active s"
  "msg_counter (snd (dnn_output interp s)) = msg_counter s"
  "prev_button (snd (dnn_output interp s)) = prev_button s"
  "drive_pub (snd (dnn_output interp s)) = drive_pub s"
  by (simp_all add: dnn_output_snd dnn_body_frame split: sum.split)

lemma autonomous_tick_eq:
  "autonomous_tick interp s =
     (let v = fst (dnn_output interp s); s1 = snd (dnn_output interp s);
          msg = \<lparr>speed = (snd v * (75 / 10) - 5 / 10) * (12 / 10),
                 steering_angle = (fst v + 1) / 2 * (68 / 100) - 34 / 100\<rparr>
      in (None, s1\<lparr>drive_pub := drive_pub s1 @ [msg],
                    recorded_speed := recorded_speed s1 @ [speed msg],
                    recorded_steer := recorded_steer s1 @ [steering_angle msg]\<rparr>))"
  by (cases "dnn_output interp s")
     (simp add: autonomous_tick_def linear_map_def py_div_def Let_def field_simps split: prod.split)

lemma autonomous_tick_frame:
  "seq_len (snd (autonomous_tick interp s)) = seq_len s"
  "num_ranges (snd (autonomous_tick interp s)) = num_ranges s"
  "num_ch (snd (autonomous_tick interp s)) = num_ch s"
  "buff_scans (snd (autonomous_tick interp s)) = buff_scans s"
  "buff_ts (snd (autonomous_tick interp s)) = buff_ts s"
  "is_joy (snd (autonomous_tick interp s)) = is_joy s"
  "bag_open (snd (autonomous_tick interp s)) = bag_open s"
  "writer (snd (autonomous_tick interp s)) = writer s"
  "recording_active (snd (autonomous_tick interp s)) = recording_active s"
  "msg_counter (snd (autonomous_tick interp s)) = msg_counter s"
  "prev_button (snd (autonomous_tick interp s)) = prev_button s"
  by (simp_all add: autonomous_tick_eq Let_def dnn_output_frame)

lemma control_loop_eq:
  "control_loop interp ev s =
     (case fst (sync_bag ev s) of
        Some e \<Rightarrow> (snd (sync_bag ev s))\<lparr>logger := logger (snd (sync_bag ev s)) @ [ControlError e]\<rparr>
      | None \<Rightarrow>
          let s2 = (snd (sync_bag ev s))\<lparr>logger := logger (snd (sync_bag ev s)) @ [ManualStatus (is_joy s)]\<rparr>
          in if is_joy s then s2 else snd (autonomous_tick interp s2))"
  by (cases "sync_bag ev s")
     (auto simp: control_loop_def sync_bag_def Let_def autonomous_tick_eq split: option.split)

lemma sync_bag_frame:
  "seq_len (snd (sync_bag ev s)) = seq_len s"
  "num_ranges (snd (sync_bag ev s)) = num_ranges s"
  "num_ch (snd (sync_bag ev s)) = num_ch s"
  "buff_scans (snd (sync_bag ev s)) = buff_scans s"
  "buff_ts (snd (sync_bag ev s)) = buff_ts s"
  "is_joy (snd (sync_bag ev s)) = is_joy s"
  "drive_pub (snd (sync_bag ev s)) = drive_pub s"
  "interp_calls (snd (sync_bag ev s)) = interp_calls s"
  by (simp_all add: sync_bag_def Let_def open_bag_frame close_bag_frame)

lemma control_loop_frame:
  "seq_len (control_loop interp ev s) = seq_len s"
  "num_ranges (control_loop interp ev s) = num_ranges s"
  "num_ch (control_loop interp ev s) = num_ch s"
  "buff_scans (control_loop interp ev s) = buff_scans s"
  "buff_ts (control_loop interp ev s) = buff_ts s"
  "is_joy (control_loop interp ev s) = is_joy s"
  by (simp_all add: control_loop_eq Let_def autonomous_tick_frame sync_bag_frame
        split: option.split)

lemma button_callback_frame:
  "seq_len (button_callback bs ev s) = seq_len s"
  "num_ranges (button_callback bs ev s) = num_ranges s"
  "num_ch (button_callback bs ev s) = num_ch s"
  "buff_scans (button_callback bs ev s) = buff_scans s"
  "buff_ts (button_callback bs ev s) = buff_ts s"
  "drive_pub (button_callback bs ev s) = drive_pub s"
  "interp_calls (button_callback bs ev s) = interp_calls s"
  by (auto simp: button_callback_def toggle_bag_def Let_def open_bag_def close_bag_def
        split: list.split option.split open_outcome.split)

lemma sensor_cb_frame:
  "seq_len (sensor_cb a b c d e f t fault s) = seq_len s"
  "num_ranges (sensor_cb a b c d e f t fault s) = num_ranges s"
  "num_ch (sensor_cb a b c d e f t fault s) = num_ch s"
  "buff_scans (sensor_cb a b c d e f t fault s) = buff_scans s"
  "buff_ts (sensor_cb a b c d e f t fault s) = buff_ts s"
  "is_joy (sensor_cb a b c d e f t fault s) = is_joy s"
  "bag_open (sensor_cb a b c d e f t fault s) = bag_open s"
  "recording_active (sensor_cb a b c d e f t fault s) = recording_active s"
  "prev_button (sensor_cb a b c d e f t fault s) = prev_button s"
  "drive_pub (sensor_cb a b c d e f t fault s) = drive_pub s"
  "interp_calls (sensor_cb a b c d e f t fault s) = interp_calls s"
  by (simp_all add: sensor_cb_def Let_def split: option.split)

lemma lidar_callback_frame:
  "seq_len (lidar_callback pre t s) = seq_len s"
  "num_ranges (lidar_callback pre t s) = num_ranges s"
  "num_ch (lidar_callback pre t s) = num_ch s"
  "is_joy (lidar_callback pre t s) = is_joy s"
  "bag_open (lidar_callback pre t s) = bag_open s"
  "writer (lidar_callback pre t s) = writer s"
  "recording_active (lidar_callback pre t s) = recording_active s"
  "msg_counter (lidar_callback pre t s) = msg_counter s"
  "prev_button (lidar_callback pre t s) = prev_button s"
  "drive_pub (lidar_callback pre t s) = drive_pub s"
  "interp_calls (lidar_callback pre t s) = interp_calls s"
  by (simp_all add: lidar_callback_def split: sum.split)

subsection \<open>Runs\<close>

lemma step_seq_len: "seq_len (step interp s e) = seq_len s"
  by (cases e)
     (simp_all add: lidar_callback_frame button_callback_frame sensor_cb_frame control_loop_frame
        destroy_node_def close_bag_frame)

lemma run_snoc: "run interp s (evs @ [e]) = step interp (run interp s evs) e"
  by (simp add: run_def)

lemma run_seq_len: "seq_len (run interp s evs) = seq_len s"
  by (induction evs rule: rev_induct) (simp_all add: run_snoc step_seq_len, simp add: run_def)

lemma step_buffers_other:
  assumes "\<not> (\<exists>sc t. e = Scan (Inr sc) t)"
  shows "buff_scans (step interp s e) = buff_scans s \<and> buff_ts (step interp s e) = buff_ts s"
proof (cases e)
  case (Scan pre t)
  with assms obtain x where "pre = Inl x" by (cases pre) auto
  with Scan show ?thesis by (simp add: lidar_callback_def)
qed (simp_all add: button_callback_frame sensor_cb_frame control_loop_frame
       destroy_node_def close_bag_frame)

lemma pushed_other:
  assumes "\<not> (\<exists>sc t. e = Scan (Inr sc) t)"
  shows "pushed [e] = []"
proof (cases e)
  case (Scan pre t)
  with assms obtain x where "pre = Inl x" by (cases pre) auto
  with Scan show ?thesis by simp
qed simp_all

lemma run_buffers:
  "buff_scans (run interp (init n r c) evs) =
     drop (length (pushed evs) - n) (map fst (pushed evs)) \<and>
   buff_ts (run interp (init n r c) evs) =
     drop (length (pushed evs) - n) (map snd (pushed evs))"
proof (induction evs rule: rev_induct)
  case Nil
  show ?case by (simp add: run_def init_def)
next
  case (snoc e evs)
  have n: "seq_len (run interp (init n r c) evs) = n"
    by (simp add: run_seq_len init_def)
  show ?case
  proof (cases "\<exists>sc t. e = Scan (Inr sc) t")
    case True
    then obtain sc t where e: "e = Scan (Inr sc) t" by blast
    have a: "buff_scans (run interp (init n r c) (evs @ [e])) =
            deque_append n (drop (length (pushed evs) - n) (map fst (pushed evs))) sc"
      using snoc n by (simp add: run_snoc e lidar_callback_def)
    have b: "buff_ts (run interp (init n r c) (evs @ [e])) =
            deque_append n (drop (length (pushed evs) - n) (map snd (pushed evs))) t"
      using snoc n by (simp add: run_snoc e lidar_callback_def)
    have a': "deque_append n (drop (length (pushed evs) - n) (map fst (pushed evs))) sc =
            drop (length (pushed (evs @ [e])) - n) (map fst (pushed (evs @ [e])))"
      using deque_append_drop [of n "map fst (pushed evs)" sc] by (simp add: pushed_append e)
    have b': "deque_append n (drop (length (pushed evs) - n) (map snd (pushed evs))) t =
            drop (length (pushed (evs @ [e])) - n) (map snd (pushed (evs @ [e])))"
      using deque_append_drop [of n "map snd (pushed evs)" t] by (simp add: pushed_append e)
    show ?thesis
      by (rule conjI) (rule trans [OF a a'], rule trans [OF b b'])
  next
    case False
    then have "pushed (evs @ [e]) = pushed evs"
      by (simp add: pushed_append pushed_other)
    moreover from step_buffers_other [OF False, of interp "run interp (init n r c) evs"]
    have "buff_scans (run interp (init n r c) (evs @ [e])) =
        buff_scans (run interp (init n r c) evs)"
      and "buff_ts (run interp (init n r c) (evs @ [e])) =
        buff_ts (run interp (init n r c) evs)"
      by (simp_all only: run_snoc)
    ultimately show ?thesis using snoc by (simp only:)
  qed
qed

lemma run_snapshot:
  "snapshot (run interp (init n r c) evs) =
     (if length (pushed evs) < n then None
      else Some (drop (length (pushed evs) - n) (map fst (pushed evs)),
                 drop (length (pushed evs) - n) (map snd (pushed evs))))"
proof -
  have "seq_len (run interp (init n r c) evs) = n"
    by (simp add: run_seq_len init_def)
  then show ?thesis by (simp add: snapshot_def run_buffers)
qed

subsection \<open>The input tensor\<close>

lemma deltas_length: "deltas n ts = Inr dt \<Longrightarrow> length dt = n"
  by (auto simp: deltas_def ts_diffs_def dt_full_def split: sum.splits if_splits)

lemma build_input_snd:
  assumes "build_input n r scans dt = Inr inp" and "length dt = n"
  shows "map (map snd) inp = map (replicate r) dt"
proof -
  from assms have len: "length scans = length dt"
    and rows: "list_all (\<lambda>row. length row = r) scans"
    and inp: "inp = map (\<lambda>(a, b). zip a b) (zip scans (map (replicate r) dt))"
    by (auto simp: build_input_def Let_def split: if_splits)
  from len rows have
    "map (map snd) (map (\<lambda>(a, b). zip a b) (zip scans (map (replicate r) dt))) =
       map (replicate r) dt"
    by (induction scans dt rule: list_induct2) simp_all
  with inp show ?thesis by simp
qed

lemma dnn_calls:
  "interp_calls (snd (dnn_output interp s)) = interp_calls s @ [inp] \<Longrightarrow>
   \<exists>scans ts sc dt. snapshot s = Some (scans, ts) \<and> deltas (seq_len s) ts = Inr dt \<and>
      build_input (seq_len s) (num_ranges s) sc dt = Inr inp"
  by (auto simp: dnn_output_snd dnn_body_def Let_def
        split: option.splits sum.splits prod.splits if_splits)

lemma dnn_body_values:
  assumes "fst (dnn_body interp s) = Inr v"
  shows "v = (0, 0) \<or>
    (\<exists>inp out. interp inp = Inr out \<and> 2 \<le> length out \<and> v = (out ! 0, out ! 1))"
proof (cases "v = (0, 0)")
  case False
  with assms obtain inp out where "interp inp = Inr out" and "\<not> length out < 2"
    and "v = (out ! 0, out ! 1)"
    by (auto simp: dnn_body_def Let_def split: option.splits sum.splits prod.splits if_splits)
  then show ?thesis by (intro disjI2 exI [of _ inp] exI [of _ out]) simp
qed simp

lemma dnn_output_values:
  "fst (dnn_output interp s) = (0, 0) \<or>
   (\<exists>inp out. interp inp = Inr out \<and> 2 \<le> length out \<and>
      fst (dnn_output interp s) = (out ! 0, out ! 1))"
proof (cases "fst (dnn_body interp s)")
  case (Inl e)
  then show ?thesis by (simp add: dnn_output_fst)
next
  case (Inr v)
  then have "fst (dnn_output interp s) = v" by (simp add: dnn_output_fst)
  with dnn_body_values [OF Inr] show ?thesis by simp
qed

lemma run_snapshot_lengths:
  assumes "snapshot (run interp (init n r c) evs) = Some (scans, ts)"
  shows "length scans = n \<and> length ts = n"
  using assms by (auto simp: run_snapshot split: if_splits)

text \<open>
  What the model is given as its second channel: for a snapshot of \<open>seq_len\<close> stamps
  (\<open>seq_len\<close> positive) a zero followed by the float32 differences of the stamps rounded
  to float32, or by \<open>seq_len - 1\<close> times the float32 next to 0.025 when one of these
  differences is negative; each delta is repeated across the ranges.
\<close>

lemma delta_channel:
  assumes "snapshot s = Some (scans, ts)" and "length ts = seq_len s" and "0 < seq_len s"
  shows "deltas (seq_len s) ts =
           Inr (0 # (if list_ex (\<lambda>d. d < 0) (np_diff (ts_array ts))
                     then replicate (seq_len s - 1) (float32 (25 / 1000)) else np_diff (ts_array ts))) \<and>
         (interp_calls (snd (dnn_output interp s)) = interp_calls s @ [inp] \<longrightarrow>
            map (map snd) inp =
              map (replicate (num_ranges s))
                (0 # (if list_ex (\<lambda>d. d < 0) (np_diff (ts_array ts))
                      then replicate (seq_len s - 1) (float32 (25 / 1000)) else np_diff (ts_array ts))))"
proof (intro conjI impI)
  show d: "deltas (seq_len s) ts =
           Inr (0 # (if list_ex (\<lambda>d. d < 0) (np_diff (ts_array ts))
                     then replicate (seq_len s - 1) (float32 (25 / 1000)) else np_diff (ts_array ts)))"
    using assms(2,3) by (rule deltas_full)
  assume "interp_calls (snd (dnn_output interp s)) = interp_calls s @ [inp]"
  then obtain sc dt where "deltas (seq_len s) ts = Inr dt"
    and b: "build_input (seq_len s) (num_ranges s) sc dt = Inr inp"
    using assms(1) by (auto dest: dnn_calls)
  with d have dt: "dt = 0 # (if list_ex (\<lambda>d. d < 0) (np_diff (ts_array ts))
                     then replicate (seq_len s - 1) (float32 (25 / 1000)) else np_diff (ts_array ts))"
    by simp
  from \<open>deltas (seq_len s) ts = Inr dt\<close> have "length dt = seq_len s" by (rule deltas_length)
  with b have "map (map snd) inp = map (replicate (num_ranges s)) dt" by (rule build_input_snd)
  with dt show "map (map snd) inp =
              map (replicate (num_ranges s))
                (0 # (if list_ex (\<lambda>d. d < 0) (np_diff (ts_array ts))
                      then replicate (seq_len s - 1) (float32 (25 / 1000)) else np_diff (ts_array ts)))"
    by simp
qed

subsection \<open>Evaluation on concrete nodes\<close>

lemmas dnn_eval = dnn_output_def dnn_body_def snapshot_def np_stack_def deltas_def ts_diffs_def
  dt_full_def monotonic_def np_diff_def ts_array_def build_input_def init_def Let_def
  eval_nat_numeral

text \<open>
  On stamps near zero the deltas are those of the exact differences up to the rounding of
  the constants: 0.1 and 0.025 become the float32 next to them (\<open>float32_tenth\<close>,
  \<open>float32_period\<close>).
\<close>

lemma deltas_small_stamps:
  "deltas 3 [0, 1 / 10, 2 / 10] = Inr [0, 13421773 / 2 ^ 27, 13421773 / 2 ^ 27]"
  "deltas 3 [0, 3 / 10, 1 / 10] = Inr [0, 13421773 / 2 ^ 29, 13421773 / 2 ^ 29]"
  by code_simp+

subsection \<open>The mode toggle\<close>

lemma toggle_bag_frame:
  "seq_len (snd (toggle_bag v ev s)) = seq_len s"
  "num_ranges (snd (toggle_bag v ev s)) = num_ranges s"
  "num_ch (snd (toggle_bag v ev s)) = num_ch s"
  "buff_scans (snd (toggle_bag v ev s)) = buff_scans s"
  "buff_ts (snd (toggle_bag v ev s)) = buff_ts s"
  "is_joy (snd (toggle_bag v ev s)) = is_joy s"
  "prev_button (snd (toggle_bag v ev s)) = prev_button s"
  "drive_pub (snd (toggle_bag v ev s)) = drive_pub s"
  "interp_calls (snd (toggle_bag v ev s)) = interp_calls s"
  by (simp_all add: toggle_bag_def open_bag_def close_bag_def Let_def
        split: open_outcome.split option.split)

lemma button_callback_eq:
  "button_callback (b # rest) ev s =
     (if b = 1 \<and> b \<noteq> prev_button s then
        (let r = toggle_bag (\<not> is_joy s) ev (s\<lparr>is_joy := \<not> is_joy s\<rparr>) in
         case fst r of
           Some e \<Rightarrow> (snd r)\<lparr>logger := logger (snd r) @ [ButtonError e]\<rparr>
         | None \<Rightarrow> (snd r)\<lparr>prev_button := b\<rparr>)
      else s\<lparr>prev_button := b\<rparr>)"
  by (cases "toggle_bag (\<not> is_joy s) ev (s\<lparr>is_joy := \<not> is_joy s\<rparr>)")
     (simp add: button_callback_def Let_def split: option.split)

lemma button_is_joy:
  "is_joy (button_callback (b # rest) ev s) =
     (if b = 1 \<and> prev_button s \<noteq> 1 then \<not> is_joy s else is_joy s)"
  by (auto simp: button_callback_eq Let_def toggle_bag_frame split: option.split)

lemma button_prev:
  "prev_button (button_callback (b # rest) ev s) =
     (if b = 1 \<and> prev_button s \<noteq> 1 \<and>
         fst (toggle_bag (\<not> is_joy s) ev (s\<lparr>is_joy := \<not> is_joy s\<rparr>)) \<noteq> None
      then prev_button s else b)"
  by (auto simp: button_callback_eq Let_def toggle_bag_frame split: option.split)

text \<open>
  When \<open>_open_bag\<close> raises inside \<open>button_callback\<close>, the mode has been flipped but
  \<open>prev_button\<close> keeps its old value: the assignment at the end of the \<open>try\<close> is
  skipped, and the next message with the button still at 1 flips the mode again.
\<close>

lemma button_failed_open:
  assumes "open_result ev \<noteq> OpenOk" and "\<not> bag_open s" and "\<not> is_joy s"
    and "prev_button s \<noteq> 1"
  shows "prev_button (button_callback (1 # rest) ev s) = prev_button s"
    and "is_joy (button_callback (1 # rest) ev s)"
    and "\<not> is_joy (button_callback (1 # rest') ev' (button_callback (1 # rest) ev s))"
proof -
  from assms(1,2) have "fst (toggle_bag True ev (s\<lparr>is_joy := True\<rparr>)) \<noteq> None"
    by (cases "open_result ev") (simp_all add: toggle_bag_def open_bag_def Let_def)
  with assms(3,4) show p: "prev_button (button_callback (1 # rest) ev s) = prev_button s"
    by (simp add: button_prev)
  from assms(3,4) show j: "is_joy (button_callback (1 # rest) ev s)"
    by (simp add: button_is_joy)
  from p j assms(4)
  show "\<not> is_joy (button_callback (1 # rest') ev' (button_callback (1 # rest) ev s))"
    by (simp add: button_is_joy)
qed

lemma button_zero: "button_callback (0 # rest) ev s = s\<lparr>prev_button := 0\<rparr>"
  by (simp add: button_callback_eq)

lemma button_repeat: "prev_button s = 1 \<Longrightarrow> button_callback (1 # rest) ev s = s"
  by (simp add: button_callback_eq)

lemma toggle_bag_open_ok:
  "\<not> bag_open s \<Longrightarrow> open_result ev = OpenOk \<Longrightarrow> fst (toggle_bag True ev s) = None"
  by (simp add: toggle_bag_def open_bag_def Let_def)

lemma button_sequence:
  assumes "open_result e2 = OpenOk"
  shows "(let s1 = button_callback [0] e1 (init n r c);
             s2 = button_callback [1] e2 s1;
             s3 = button_callback [1] e3 s2;
             s4 = button_callback [0] e4 s3;
             s5 = button_callback [1] e5 s4
         in map is_joy [init n r c, s1, s2, s3, s4, s5]) =
         [False, False, True, True, True, False]"
proof -
  define s1 where "s1 = button_callback [0] e1 (init n r c)"
  define s2 where "s2 = button_callback [1] e2 s1"
  define s3 where "s3 = button_callback [1] e3 s2"
  define s4 where "s4 = button_callback [0] e4 s3"
  define s5 where "s5 = button_callback [1] e5 s4"
  have s1: "s1 = init n r c" by (simp add: s1_def button_zero init_def)
  then have j1: "\<not> is_joy s1" and p1: "prev_button s1 = 0" and b1: "\<not> bag_open s1"
    by (simp_all add: init_def)
  from j1 p1 have j2: "is_joy s2" by (simp add: s2_def button_is_joy)
  from j1 b1 assms have "fst (toggle_bag (\<not> is_joy s1) e2 (s1\<lparr>is_joy := \<not> is_joy s1\<rparr>)) = None"
    by (simp add: toggle_bag_open_ok)
  then have p2: "prev_button s2 = 1" by (simp add: s2_def button_prev)
  then have s3: "s3 = s2" by (simp add: s3_def button_repeat)
  have s4: "s4 = s3\<lparr>prev_button := 0\<rparr>" by (simp add: s4_def button_zero)
  with s3 j2 have j4: "is_joy s4" and p4: "prev_button s4 = 0" by simp_all
  then have j5: "\<not> is_joy s5" by (simp add: s5_def button_is_joy)
  from j1 j2 s3 j4 j5 have "map is_joy [init n r c, s1, s2, s3, s4, s5] =
      [False, False, True, True, True, False]"
    by (simp add: init_def)
  then show ?thesis by (simp add: s1_def s2_def s3_def s4_def s5_def Let_def)
qed

text \<open>
  The edge detector message by message, and the inputs 0, 1, 1, 0, 1 when \<open>_open_bag\<close>
  returns at the second input: the mode flips at the second and the fifth input only.
\<close>

lemma mode_toggle_edges:
  "is_joy (button_callback (b # rest) ev s) =
     (if b = 1 \<and> prev_button s \<noteq> 1 then \<not> is_joy s else is_joy s) \<and>
   (prev_button s \<in> {0, 1} \<and> b \<in> {0, 1} \<longrightarrow>
      (is_joy (button_callback (b # rest) ev s) \<noteq> is_joy s) = (prev_button s = 0 \<and> b = 1)) \<and>
   button_callback (0 # rest) ev s = s\<lparr>prev_button := 0\<rparr> \<and>
   (prev_button s = 1 \<longrightarrow> button_callback (1 # rest) ev s = s) \<and>
   (open_result e2 = OpenOk \<longrightarrow>
      (let s1 = button_callback [0] e1 (init n r c);
           s2 = button_callback [1] e2 s1;
           s3 = button_callback [1] e3 s2;
           s4 = button_callback [0] e4 s3;
           s5 = button_callback [1] e5 s4
       in map is_joy [init n r c, s1, s2, s3, s4, s5]) =
       [False, False, True, True, True, False])"
proof (intro conjI impI)
  show "is_joy (button_callback (b # rest) ev s) =
     (if b = 1 \<and> prev_button s \<noteq> 1 then \<not> is_joy s else is_joy s)"
    by (rule button_is_joy)
  show "(is_joy (button_callback (b # rest) ev s) \<noteq> is_joy s) = (prev_button s = 0 \<and> b = 1)"
    if "prev_button s \<in> {0, 1} \<and> b \<in> {0, 1}"
    using that by (auto simp: button_is_joy)
  show "button_callback (0 # rest) ev s = s\<lparr>prev_button := 0\<rparr>"
    by (rule button_zero)
  show "button_callback (1 # rest) ev s = s" if "prev_button s = 1"
    using that by (rule button_repeat)
  show "(let s1 = button_callback [0] e1 (init n r c);
           s2 = button_callback [1] e2 s1;
           s3 = button_callback [1] e3 s2;
           s4 = button_callback [0] e4 s3;
           s5 = button_callback [1] e5 s4
       in map is_joy [init n r c, s1, s2, s3, s4, s5]) =
       [False, False, True, True, True, False]" if "open_result e2 = OpenOk"
    using that by (rule button_sequence)
qed

lemma mode_toggle_edges_example:
  "prev_button (init 3 2 2) \<in> {0, 1} \<and> (1::int) \<in> {0, 1} \<and>
   is_joy (button_callback [1] \<lparr>now = 7, open_result = OpenOk, close_raises = False\<rparr> (init 3 2 2)) \<and>
   prev_button (button_callback [1] \<lparr>now = 7, open_result = OpenOk, close_raises = False\<rparr> (init 3 2 2)) = 1 \<and>
   button_callback [1] \<lparr>now = 7, open_result = OpenOk, close_raises = False\<rparr> (button_callback [1] \<lparr>now = 7, open_result = OpenOk, close_raises = False\<rparr> (init 3 2 2)) =
     button_callback [1] \<lparr>now = 7, open_result = OpenOk, close_raises = False\<rparr> (init 3 2 2) \<and>
   open_result \<lparr>now = 7, open_result = OpenOk, close_raises = False\<rparr> = OpenOk \<and>
   (let s1 = button_callback [0] \<lparr>now = 7, open_result = OpenOk, close_raises = False\<rparr> (init 3 2 2);
        s2 = button_callback [1] \<lparr>now = 7, open_result = OpenOk, close_raises = False\<rparr> s1;
        s3 = button_callback [1] \<lparr>now = 7, open_result = OpenOk, close_raises = False\<rparr> s2;
        s4 = button_callback [0] \<lparr>now = 7, open_result = OpenOk, close_raises = False\<rparr> s3;
        s5 = button_callback [1] \<lparr>now = 7, open_result = OpenOk, close_raises = False\<rparr> s4
    in map is_joy [init 3 2 2, s1, s2, s3, s4, s5]) =
     [False, False, True, True, True, False]"
  using
    mode_toggle_edges [of 1 "[]" "\<lparr>now = 7, open_result = OpenOk, close_raises = False\<rparr>" "init 3 2 2" "\<lparr>now = 7, open_result = OpenOk, close_raises = False\<rparr>" "\<lparr>now = 7, open_result = OpenOk, close_raises = False\<rparr>" 3 2 2 "\<lparr>now = 7, open_result = OpenOk, close_raises = False\<rparr>" "\<lparr>now = 7, open_result = OpenOk, close_raises = False\<rparr>" "\<lparr>now = 7, open_result = OpenOk, close_raises = False\<rparr>"]
    mode_toggle_edges [of 1 "[]" "\<lparr>now = 7, open_result = OpenOk, close_raises = False\<rparr>"
      "button_callback [1] \<lparr>now = 7, open_result = OpenOk, close_raises = False\<rparr> (init 3 2 2)" "\<lparr>now = 7, open_result = OpenOk, close_raises = False\<rparr>" "\<lparr>now = 7, open_result = OpenOk, close_raises = False\<rparr>" 3 2 2 "\<lparr>now = 7, open_result = OpenOk, close_raises = False\<rparr>" "\<lparr>now = 7, open_result = OpenOk, close_raises = False\<rparr>" "\<lparr>now = 7, open_result = OpenOk, close_raises = False\<rparr>"]
  by (simp add: button_callback_def toggle_bag_def open_bag_def close_bag_def init_def Let_def)

subsection \<open>The session\<close>

lemma close_closed: "session_closed s \<Longrightarrow> close_bag ev s = (None, s)"
  by (simp add: session_closed_def close_bag_def)

lemma close_bag_ok:
  "\<not> close_raises ev \<Longrightarrow> fst (close_bag ev s) = None \<and> session_closed (snd (close_bag ev s))"
  by (simp add: session_closed_def close_bag_def split: option.split)

lemma close_bag_counter: "msg_counter (snd (close_bag ev s)) = msg_counter s"
  by (simp add: close_bag_def split: option.split)

lemma sensor_cb_idle: "\<not> recording_active s \<Longrightarrow> sensor_cb a b c d f g t fault s = s"
  by (simp add: sensor_cb_def)

lemma open_bag_ok:
  assumes "open_result ev = OpenOk"
  shows "fst (open_bag ev s) = None" and "msg_counter (snd (open_bag ev s)) = 0"
    and "bag_open (snd (open_bag ev s))" and "recording_active (snd (open_bag ev s))"
    and "writer (snd (open_bag ev s)) \<noteq> None"
  using assms by (simp_all add: open_bag_def Let_def)

lemma sensor_cb_write:
  assumes "recording_active s" and "writer s \<noteq> None"
  shows "msg_counter (sensor_cb a b c d f g t None s) = msg_counter s + 1"
    and "writer (sensor_cb a b c d f g t None s) \<noteq> None"
  using assms by (auto simp: sensor_cb_def Let_def)

lemma sensor_cb_fault:
  "msg_counter (sensor_cb a b c d f g t (Some k) s) = msg_counter s"
  by (simp add: sensor_cb_def Let_def split: option.split)

lemma close_bag_log:
  "writer s \<noteq> None \<Longrightarrow> \<not> close_raises ev \<Longrightarrow>
   logger (snd (close_bag ev s)) = logger s @ [BagClosed (msg_counter s)]"
  by (auto simp: close_bag_def)

lemma session_example:
  assumes "open_result ev1 = OpenOk" and "\<not> close_raises ev2"
  shows "(let s1 = snd (open_bag ev1 s);
              s2 = sensor_cb a b c d f g t None s1;
              s3 = sensor_cb a' b' c' d' f' g' t' None s2;
              s4 = snd (close_bag ev2 s3)
          in msg_counter s1 = 0 \<and> msg_counter s2 = 1 \<and> msg_counter s3 = 2 \<and>
             msg_counter s4 = 2 \<and> logger s4 = logger s3 @ [BagClosed 2] \<and> session_closed s4)"
proof -
  define s1 where "s1 = snd (open_bag ev1 s)"
  define s2 where "s2 = sensor_cb a b c d f g t None s1"
  define s3 where "s3 = sensor_cb a' b' c' d' f' g' t' None s2"
  define s4 where "s4 = snd (close_bag ev2 s3)"
  from assms(1) have c1: "msg_counter s1 = 0" and r1: "recording_active s1"
    and w1: "writer s1 \<noteq> None"
    by (simp_all add: s1_def open_bag_ok)
  from r1 w1 c1 have c2: "msg_counter s2 = 1" and w2: "writer s2 \<noteq> None"
    by (simp_all add: s2_def sensor_cb_write)
  from r1 have r2: "recording_active s2" by (simp add: s2_def sensor_cb_frame)
  from r2 w2 c2 have c3: "msg_counter s3 = 2" and w3: "writer s3 \<noteq> None"
    by (simp_all add: s3_def sensor_cb_write)
  from c3 have c4: "msg_counter s4 = 2" by (simp add: s4_def close_bag_counter)
  from w3 assms(2) c3 have l4: "logger s4 = logger s3 @ [BagClosed 2]"
    by (simp add: s4_def close_bag_log)
  from assms(2) have "session_closed s4" by (simp add: s4_def close_bag_ok)
  with c1 c2 c3 c4 l4 show ?thesis
    by (simp add: s1_def s2_def s3_def s4_def Let_def)
qed

subsection \<open>Calls of the bag opener\<close>

text \<open>
  None of the callbacks runs \<open>_open_bag\<close> from a node whose bag is open.
\<close>

lemma opens_append: "opens (s\<lparr>logger := logger s @ [x]\<rparr>) = opens s + (if is_bag_opened x then 1 else 0)"
  by (simp add: opens_def)

lemma close_bag_opens: "opens (snd (close_bag ev s)) = opens s"
  by (simp add: close_bag_def opens_def split: option.split)

lemma dnn_body_opens: "opens (snd (dnn_body interp s)) = opens s"
  by (simp add: dnn_body_def opens_def Let_def split: option.split sum.split prod.split)

lemma dnn_output_opens: "opens (snd (dnn_output interp s)) = opens s"
  by (simp add: dnn_output_snd opens_def dnn_body_opens [unfolded opens_def] split: sum.split)

lemma autonomous_tick_opens: "opens (snd (autonomous_tick interp s)) = opens s"
  using dnn_output_opens [of interp s] by (simp add: autonomous_tick_eq Let_def opens_def)

lemma toggle_bag_opens: "bag_open s \<Longrightarrow> opens (snd (toggle_bag v ev s)) = opens s"
  by (simp add: toggle_bag_def close_bag_opens) (simp add: opens_def)

lemma sync_bag_opens: "bag_open s \<Longrightarrow> opens (snd (sync_bag ev s)) = opens s"
  by (simp add: sync_bag_def Let_def close_bag_opens)

lemma button_callback_opens:
  assumes "bag_open s"
  shows "opens (button_callback bs ev s) = opens s"
proof (cases bs)
  case Nil
  then show ?thesis by (simp add: button_callback_def opens_def)
next
  case (Cons b rest)
  from assms have "opens (snd (toggle_bag v ev (s\<lparr>is_joy := j\<rparr>))) = opens s" for v j
    by (simp add: toggle_bag_opens) (simp add: opens_def)
  then show ?thesis
    by (simp add: Cons button_callback_eq Let_def opens_def split: option.split)
qed

lemma control_loop_opens:
  assumes "bag_open s"
  shows "opens (control_loop interp ev s) = opens s"
proof -
  from assms have a: "opens (snd (sync_bag ev s)) = opens s" by (rule sync_bag_opens)
  have b: "opens (snd (autonomous_tick interp (x\<lparr>logger := logger x @ [ManualStatus j]\<rparr>))) = opens x"
    for x j
    by (simp add: autonomous_tick_opens) (simp add: opens_def)
  show ?thesis
  proof (cases "fst (sync_bag ev s)")
    case None
    with a b show ?thesis by (simp add: control_loop_eq Let_def) (simp add: opens_def)
  next
    case (Some e)
    with a show ?thesis by (simp add: control_loop_eq) (simp add: opens_def)
  qed
qed

lemma sensor_cb_opens: "opens (sensor_cb a b c d f g t fault s) = opens s"
  by (simp add: sensor_cb_def opens_def Let_def split: option.split)

lemma step_opens: "bag_open s \<Longrightarrow> opens (step interp s e) = opens s"
proof (cases e)
  case (Scan pre t)
  then show ?thesis by (cases pre) (simp_all add: lidar_callback_def opens_def)
next
  case (SetParam b)
  then show ?thesis by (simp add: opens_def)
qed (simp_all add: button_callback_opens control_loop_opens sensor_cb_opens destroy_node_def
       close_bag_opens)

lemmas bag_eval = open_bag_def close_bag_def sensor_cb_def session_closed_def init_def Let_def opens_def

subsection \<open>The recording invariant\<close>

lemma awe_append [simp]:
  "absent_writer_error (s\<lparr>logger := logger s @ [x]\<rparr>) \<longleftrightarrow>
     absent_writer_error s \<or> x = WriteError AttributeError"
  by (auto simp: absent_writer_error_def)

lemma awe_frame:
  "absent_writer_error (s\<lparr>writer := w\<rparr>) = absent_writer_error s"
  "absent_writer_error (s\<lparr>bag_open := b\<rparr>) = absent_writer_error s"
  "absent_writer_error (s\<lparr>recording_active := b\<rparr>) = absent_writer_error s"
  "absent_writer_error (s\<lparr>msg_counter := k\<rparr>) = absent_writer_error s"
  "absent_writer_error (s\<lparr>is_joy := b\<rparr>) = absent_writer_error s"
  "absent_writer_error (s\<lparr>prev_button := i\<rparr>) = absent_writer_error s"
  "absent_writer_error (s\<lparr>interp_calls := cs\<rparr>) = absent_writer_error s"
  "absent_writer_error (s\<lparr>drive_pub := ds\<rparr>) = absent_writer_error s"
  "absent_writer_error (s\<lparr>recorded_speed := xs\<rparr>) = absent_writer_error s"
  "absent_writer_error (s\<lparr>recorded_steer := xs\<rparr>) = absent_writer_error s"
  "absent_writer_error (s\<lparr>buff_scans := q\<rparr>) = absent_writer_error s"
  "absent_writer_error (s\<lparr>buff_ts := q'\<rparr>) = absent_writer_error s"
  by (simp_all add: absent_writer_error_def)

lemma open_bag_awe: "absent_writer_error (snd (open_bag ev s)) = absent_writer_error s"
  by (simp add: open_bag_def Let_def awe_frame split: open_outcome.split)

lemma close_bag_awe: "absent_writer_error (snd (close_bag ev s)) = absent_writer_error s"
  by (simp add: close_bag_def awe_frame split: option.split)

lemma toggle_bag_awe: "absent_writer_error (snd (toggle_bag v ev s)) = absent_writer_error s"
  by (simp add: toggle_bag_def open_bag_awe close_bag_awe awe_frame)

lemma sync_bag_awe: "absent_writer_error (snd (sync_bag ev s)) = absent_writer_error s"
  by (simp add: sync_bag_def Let_def open_bag_awe close_bag_awe)

lemma dnn_body_awe: "absent_writer_error (snd (dnn_body interp s)) = absent_writer_error s"
  by (simp add: dnn_body_def Let_def absent_writer_error_def
        split: option.split sum.split prod.split)

lemma dnn_output_awe: "absent_writer_error (snd (dnn_output interp s)) = absent_writer_error s"
  by (simp add: dnn_output_snd dnn_body_awe split: sum.split)

lemma autonomous_tick_awe:
  "absent_writer_error (snd (autonomous_tick interp s)) = absent_writer_error s"
  by (simp add: autonomous_tick_eq Let_def awe_frame dnn_output_awe)

lemma control_loop_awe:
  "absent_writer_error (control_loop interp ev s) = absent_writer_error s"
  by (simp add: control_loop_eq Let_def autonomous_tick_awe sync_bag_awe split: option.split)

lemma button_callback_awe:
  "absent_writer_error (button_callback bs ev s) = absent_writer_error s"
proof (cases bs)
  case Nil
  then show ?thesis by (simp add: button_callback_def)
next
  case (Cons b rest)
  then show ?thesis
    by (simp add: button_callback_eq Let_def toggle_bag_awe awe_frame split: option.split)
qed

lemma sensor_cb_awe:
  "bag_inv s \<Longrightarrow>
   absent_writer_error (sensor_cb a b c d f g t fault s) = absent_writer_error s"
  by (auto simp: sensor_cb_def bag_inv_def Let_def absent_writer_error_def split: option.split)

lemma open_bag_inv: "bag_inv s \<Longrightarrow> bag_inv (snd (open_bag ev s))"
  by (simp add: open_bag_def Let_def bag_inv_def split: open_outcome.split)

lemma close_bag_inv: "bag_inv s \<Longrightarrow> bag_inv (snd (close_bag ev s))"
  by (simp add: close_bag_def bag_inv_def split: option.split)

lemma bag_inv_frame:
  "bag_inv (s\<lparr>is_joy := j\<rparr>) = bag_inv s"
  "bag_inv (s\<lparr>logger := l\<rparr>) = bag_inv s"
  "bag_inv (s\<lparr>prev_button := i\<rparr>) = bag_inv s"
  by (simp_all add: bag_inv_def)

lemma toggle_bag_inv: "bag_inv s \<Longrightarrow> bag_inv (snd (toggle_bag v ev s))"
  by (simp add: toggle_bag_def open_bag_inv close_bag_inv) (simp add: bag_inv_def)

lemma sync_bag_inv: "bag_inv s \<Longrightarrow> bag_inv (snd (sync_bag ev s))"
  by (simp add: sync_bag_def Let_def open_bag_inv close_bag_inv)

lemma button_callback_inv: "bag_inv s \<Longrightarrow> bag_inv (button_callback bs ev s)"
proof (cases bs)
  case Nil
  assume "bag_inv s"
  with Nil show ?thesis by (simp add: button_callback_def bag_inv_frame)
next
  case (Cons b rest)
  assume "bag_inv s"
  then have "bag_inv (snd (toggle_bag v ev (s\<lparr>is_joy := j\<rparr>)))" for v j
    by (simp add: toggle_bag_inv bag_inv_frame)
  with \<open>bag_inv s\<close> show ?thesis
    by (simp add: Cons button_callback_eq Let_def bag_inv_frame split: option.split)
qed

lemma autonomous_tick_inv: "bag_inv (snd (autonomous_tick interp s)) = bag_inv s"
  by (simp add: bag_inv_def autonomous_tick_frame)

lemma control_loop_inv: "bag_inv s \<Longrightarrow> bag_inv (control_loop interp ev s)"
  by (simp add: control_loop_eq Let_def autonomous_tick_inv bag_inv_frame sync_bag_inv
        split: option.split)

lemma sensor_cb_inv: "bag_inv s \<Longrightarrow> bag_inv (sensor_cb a b c d f g t fault s)"
  by (auto simp: sensor_cb_def bag_inv_def Let_def split: option.split)

lemma step_inv: "bag_inv s \<Longrightarrow> bag_inv (step interp s e)"
proof (cases e)
  case (Scan pre t)
  assume "bag_inv s"
  then show ?thesis by (simp add: Scan bag_inv_def lidar_callback_frame)
qed (simp_all add: button_callback_inv sensor_cb_inv control_loop_inv bag_inv_frame
       destroy_node_def close_bag_inv)

lemma step_awe:
  "bag_inv s \<Longrightarrow> absent_writer_error (step interp s e) = absent_writer_error s"
proof (cases e)
  case (Scan pre t)
  then show ?thesis by (cases pre) (simp_all add: lidar_callback_def awe_frame)
qed (simp_all add: button_callback_awe sensor_cb_awe control_loop_awe awe_frame
       destroy_node_def close_bag_awe)

lemma init_inv: "bag_inv (init n r c)" and init_awe: "\<not> absent_writer_error (init n r c)"
  by (simp_all add: bag_inv_def init_def absent_writer_error_def)

lemma run_inv:
  "bag_inv (run interp (init n r c) evs) \<and> \<not> absent_writer_error (run interp (init n r c) evs)"
proof (induction evs rule: rev_induct)
  case Nil
  show ?case by (simp add: run_def init_inv init_awe)
next
  case (snoc e evs)
  then show ?case by (simp add: run_snoc step_inv step_awe)
qed

subsection \<open>What a tick publishes\<close>

text \<open>
  The value of \<open>dnn_output\<close> depends on the buffers and the shape of the model only.
\<close>

lemma dnn_body_cong:
  assumes "seq_len s = seq_len s'" and "num_ranges s = num_ranges s'" and "num_ch s = num_ch s'"
    and "buff_scans s = buff_scans s'" and "buff_ts s = buff_ts s'"
  shows "fst (dnn_body interp s) = fst (dnn_body interp s')"
  using assms
  by (simp add: dnn_body_def snapshot_def Let_def split: option.split sum.split prod.split)

lemma dnn_output_cong:
  assumes "seq_len s = seq_len s'" and "num_ranges s = num_ranges s'" and "num_ch s = num_ch s'"
    and "buff_scans s = buff_scans s'" and "buff_ts s = buff_ts s'"
  shows "fst (dnn_output interp s) = fst (dnn_output interp s')"
  using dnn_body_cong [OF assms, of interp] by (simp add: dnn_output_fst)

lemma control_loop_pub:
  assumes "\<not> is_joy s"
  shows "drive_pub (control_loop interp ev s) =
     drive_pub s @
     (if fst (sync_bag ev s) = None
      then [\<lparr>speed = (snd (fst (dnn_output interp s)) * (75 / 10) - 5 / 10) * (12 / 10),
             steering_angle = (fst (fst (dnn_output interp s)) + 1) / 2 * (68 / 100) - 34 / 100\<rparr>]
      else [])"
proof (cases "fst (sync_bag ev s)")
  case (Some e)
  then show ?thesis by (simp add: control_loop_eq sync_bag_frame)
next
  case None
  define s2 where "s2 = (snd (sync_bag ev s))\<lparr>logger := logger (snd (sync_bag ev s)) @ [ManualStatus (is_joy s)]\<rparr>"
  have v: "fst (dnn_output interp s2) = fst (dnn_output interp s)"
    by (rule dnn_output_cong) (simp_all add: s2_def sync_bag_frame)
  have d: "drive_pub s2 = drive_pub s" by (simp add: s2_def sync_bag_frame)
  from assms None have "control_loop interp ev s = snd (autonomous_tick interp s2)"
    by (simp add: control_loop_eq s2_def Let_def)
  with v d None show ?thesis
    by (simp add: autonomous_tick_eq Let_def dnn_output_frame)
qed

lemma linear_map_total:
  "x_max \<noteq> x_min \<Longrightarrow>
   linear_map x x_min x_max y_min y_max =
     Inr ((x - x_min) / (x_max - x_min) * (y_max - y_min) + y_min)"
  by (simp add: linear_map_def py_div_def)

lemmas loop_eval = control_loop_def sync_bag_def autonomous_tick_def linear_map_def py_div_def

section \<open>Properties\<close>

subsection \<open>Denormalization\<close>

text \<open>
  C3. On a degenerate domain \<open>linear_map\<close> returns the midpoint of the output range for
  every \<open>x\<close>; on any other domain it is the affine map
  \<open>(x - x_min) / (x_max - x_min) * (y_max - y_min) + y_min\<close>; it never raises
  ZeroDivisionError (nor anything else); and \<open>linear_map(0.5, 0, 1, -0.34, 0.34)\<close> is 0.
\<close>

theorem linear_map_spec:
  "linear_map x a a y0 y1 = Inr ((y0 + y1) / 2) \<and>
   (x_min \<noteq> x_max \<longrightarrow>
      linear_map x x_min x_max y_min y_max =
        Inr ((x - x_min) / (x_max - x_min) * (y_max - y_min) + y_min)) \<and>
   linear_map x x_min x_max y_min y_max \<noteq> Inl e \<and>
   linear_map (5 / 10) 0 1 (- (34 / 100)) (34 / 100) = Inr 0"
  by (simp add: linear_map_def py_div_def add.commute)

theorem linear_map_spec_witness:
  "(0::real) \<noteq> 1 \<and> linear_map (1 / 4) 0 1 (- (5 / 10)) 7 = Inr (11 / 8)"
  using linear_map_spec [of "1 / 4" 0 0 0 0 1 "- (5 / 10)" 7] by simp

subsection \<open>The temporal buffer\<close>

text \<open>
  C2. After any run of callbacks from the initial node, the buffer holds the most recent
  \<open>seq_len\<close> of the scans and stamps pushed so far (all of them while there are fewer),
  in the order of arrival and whatever the stamps are; and once at least \<open>seq_len\<close>
  have been pushed, both deques have length \<open>seq_len\<close> and the snapshot of
  \<open>dnn_output\<close> is a copy of exactly these entries.
\<close>

theorem fifo_eviction:
  "buff_scans (run interp (init n r c) evs) =
     drop (length (pushed evs) - n) (map fst (pushed evs)) \<and>
   buff_ts (run interp (init n r c) evs) =
     drop (length (pushed evs) - n) (map snd (pushed evs)) \<and>
   (n \<le> length (pushed evs) \<longrightarrow>
      length (buff_scans (run interp (init n r c) evs)) = n \<and>
      length (buff_ts (run interp (init n r c) evs)) = n \<and>
      snapshot (run interp (init n r c) evs) =
        Some (buff_scans (run interp (init n r c) evs), buff_ts (run interp (init n r c) evs)))"
  by (simp add: run_snapshot run_buffers)

theorem fifo_eviction_witness:
  "2 \<le> length (pushed [Scan (Inr [1]) 10, Tick \<lparr>now = 0, open_result = OpenOk, close_raises = False\<rparr>,
                         Scan (Inr [2]) 20, Scan (Inl ValueError) 25, Scan (Inr [3]) 30]) \<and>
   snapshot (run (\<lambda>x. Inr [0, 0]) (init 2 1 2)
      [Scan (Inr [1]) 10, Tick \<lparr>now = 0, open_result = OpenOk, close_raises = False\<rparr>,
       Scan (Inr [2]) 20, Scan (Inl ValueError) 25, Scan (Inr [3]) 30]) = Some ([[2], [3]], [20, 30])"
  using fifo_eviction [of "\<lambda>x. Inr [0, 0]" 2 1 2
      "[Scan (Inr [1]) 10, Tick \<lparr>now = 0, open_result = OpenOk, close_raises = False\<rparr>,
        Scan (Inr [2]) 20, Scan (Inl ValueError) 25, Scan (Inr [3]) 30]"]
  by simp

subsection \<open>Inference\<close>

text \<open>
  C1. The specification has the deltas be a zero followed by the successive differences of
  the stamps of the snapshot, and the constant 0.025 replace them exactly when one of
  these differences is negative. The code casts the stamps to float32 before it takes the
  differences (line 266), and at the size of a wall-clock stamp a float32 has a step of
  128 seconds. For three scans stamped 1700000000.0, 1700000000.3 and 1700000000.1 the
  second difference is negative, yet all three stamps round to the same float32, no
  difference is negative after the cast, no warning is logged, no fallback is taken, and
  the deltas given to the model are 0, 0, 0, not 0, 0.025, 0.025. Stamps
  that do increase by the control period give 0, 0, 0 as well.
\<close>

theorem delta_channel_epoch_stamps:
  "(17000000001 / 10 - 17000000003 / 10 < (0::real)) \<and>
   ts_array [1700000000, 17000000003 / 10, 17000000001 / 10] =
     [1700000000, 1700000000, 1700000000] \<and>
   monotonic (ts_array [1700000000, 17000000003 / 10, 17000000001 / 10]) \<and>
   deltas 3 [1700000000, 17000000003 / 10, 17000000001 / 10] = Inr [0, 0, 0] \<and>
   interp_calls (run (\<lambda>x. Inr [0, 0]) (init 3 1 2)
      [Scan (Inr [1]) 1700000000, Scan (Inr [2]) (17000000003 / 10),
       Scan (Inr [3]) (17000000001 / 10), Tick \<lparr>now = 7, open_result = OpenOk, close_raises = False\<rparr>]) =
     [[[(1, 0)], [(2, 0)], [(3, 0)]]] \<and>
   logger (run (\<lambda>x. Inr [0, 0]) (init 3 1 2)
      [Scan (Inr [1]) 1700000000, Scan (Inr [2]) (17000000003 / 10),
       Scan (Inr [3]) (17000000001 / 10), Tick \<lparr>now = 7, open_result = OpenOk, close_raises = False\<rparr>]) =
     [ManualStatus False, InputShape 3 1, InputRange, InferenceDone] \<and>
   deltas 3 [1700000000, 1700000000 + 25 / 1000, 1700000000 + 50 / 1000] = Inr [0, 0, 0]"
  by (simp add: run_def lidar_callback_def deque_append_def loop_eval dnn_eval float32_eval)

text \<open>
  C4. With fewer than \<open>seq_len\<close> scans in the buffer, \<open>dnn_output\<close> returns
  \<open>(0.0, 0.0)\<close>, logs one debug message and no error, and does not invoke the
  interpreter.
\<close>

theorem warm_up:
  assumes "length (buff_scans s) < seq_len s"
  shows "dnn_output interp s =
           ((0, 0), s\<lparr>logger := logger s @ [NotEnoughScans (length (buff_scans s)) (seq_len s)]\<rparr>) \<and>
         interp_calls (snd (dnn_output interp s)) = interp_calls s"
  using assms by (simp add: dnn_output_def dnn_body_def snapshot_def)

theorem warm_up_witness:
  "length (buff_scans (lidar_callback (Inr [1, 2]) 10 (init 3 2 2)))
     < seq_len (lidar_callback (Inr [1, 2]) 10 (init 3 2 2)) \<and>
   fst (dnn_output (\<lambda>x. Inr [1, 1]) (lidar_callback (Inr [1, 2]) 10 (init 3 2 2))) = (0, 0) \<and>
   interp_calls (snd (dnn_output (\<lambda>x. Inr [1, 1]) (lidar_callback (Inr [1, 2]) 10 (init 3 2 2)))) = []"
  using warm_up [of "lidar_callback (Inr [1, 2]) 10 (init 3 2 2)" "\<lambda>x. Inr [1, 1]"]
  by (simp add: lidar_callback_def init_def deque_append_def)

text \<open>
  C5. Whatever exception the body of \<open>dnn_output\<close> raises, at whatever stage,
  \<open>dnn_output\<close> logs it and returns \<open>(0.0, 0.0)\<close>; so \<open>dnn_output\<close> always returns,
  either \<open>(0.0, 0.0)\<close> or the first two entries of an output vector of the interpreter;
  and the autonomous part of a control tick (inference, denormalization, publishing)
  raises nothing, whatever the interpreter does.
\<close>

theorem inference_exceptions_caught:
  "(dnn_body interp s = (Inl e, s') \<longrightarrow>
      dnn_output interp s = ((0, 0), s'\<lparr>logger := logger s' @ [DnnError e]\<rparr>)) \<and>
   (fst (dnn_output interp s) = (0, 0) \<or>
    (\<exists>inp out. interp inp = Inr out \<and> 2 \<le> length out \<and>
       fst (dnn_output interp s) = (out ! 0, out ! 1))) \<and>
   fst (autonomous_tick interp s) = None"
proof (intro conjI impI)
  show "dnn_output interp s = ((0, 0), s'\<lparr>logger := logger s' @ [DnnError e]\<rparr>)"
    if "dnn_body interp s = (Inl e, s')"
    using that by (simp add: dnn_output_def)
  show "fst (dnn_output interp s) = (0, 0) \<or>
    (\<exists>inp out. interp inp = Inr out \<and> 2 \<le> length out \<and>
       fst (dnn_output interp s) = (out ! 0, out ! 1))"
    by (rule dnn_output_values)
  show "fst (autonomous_tick interp s) = None"
    by (simp add: autonomous_tick_eq Let_def)
qed

theorem inference_exceptions_caught_witness:
  "dnn_body (\<lambda>x. Inl RuntimeError)
      ((init 2 1 2)\<lparr>buff_scans := [[1], [2]], buff_ts := [0, 1]\<rparr>) =
     (Inl RuntimeError,
      (init 2 1 2)\<lparr>buff_scans := [[1], [2]], buff_ts := [0, 1],
                    interp_calls := [[[(1, 0)], [(2, 1)]]],
                    logger := [InputShape 2 1, InputRange]\<rparr>) \<and>
   dnn_output (\<lambda>x. Inl RuntimeError)
      ((init 2 1 2)\<lparr>buff_scans := [[1], [2]], buff_ts := [0, 1]\<rparr>) =
     ((0, 0),
      (init 2 1 2)\<lparr>buff_scans := [[1], [2]], buff_ts := [0, 1],
                    interp_calls := [[[(1, 0)], [(2, 1)]]],
                    logger := [InputShape 2 1, InputRange, DnnError RuntimeError]\<rparr>)"
  using inference_exceptions_caught [of "\<lambda>x. Inl RuntimeError"
      "(init 2 1 2)\<lparr>buff_scans := [[1], [2]], buff_ts := [0, 1]\<rparr>" RuntimeError
      "(init 2 1 2)\<lparr>buff_scans := [[1], [2]], buff_ts := [0, 1],
                    interp_calls := [[[(1, 0)], [(2, 1)]]],
                    logger := [InputShape 2 1, InputRange]\<rparr>"]
  by (simp add: dnn_eval)

subsection \<open>The mode toggle\<close>

text \<open>
  C6. The specification has the mode flip, for the inputs 0, 1, 1, 0, 1, at the second and
  the fifth input only, a repeated 1 being a no-op. In \<open>button_callback\<close> the assignment
  \<open>self.prev_button = curr\<close> is the last statement of the \<open>try\<close>: when
  \<open>_open_bag\<close> raises at the second input (here in \<open>SequentialWriter.open\<close>), the mode
  has been flipped but \<open>prev_button\<close> still holds 0, and the repeated 1 of the third input
  flips the mode again. The modes after the five inputs are off, on, off, off, on: flips at
  the second, the third and the fifth input.
\<close>

theorem mode_toggle_failed_open:
  "(let s1 = button_callback [0] \<lparr>now = 7, open_result = OpenOk, close_raises = False\<rparr> (init 3 2 2);
        s2 = button_callback [1] \<lparr>now = 7, open_result = OpenRaises, close_raises = False\<rparr> s1;
        s3 = button_callback [1] \<lparr>now = 7, open_result = OpenOk, close_raises = False\<rparr> s2;
        s4 = button_callback [0] \<lparr>now = 7, open_result = OpenOk, close_raises = False\<rparr> s3;
        s5 = button_callback [1] \<lparr>now = 7, open_result = OpenOk, close_raises = False\<rparr> s4
    in (map is_joy [init 3 2 2, s1, s2, s3, s4, s5], map prev_button [s1, s2, s3, s4, s5])) =
     ([False, False, True, False, False, True], [0, 0, 1, 0, 1])"
  by (simp add: button_callback_def toggle_bag_def open_bag_def close_bag_def init_def Let_def)

subsection \<open>The session recorder\<close>

text \<open>
  C7. Closing a closed session changes nothing; a close that does not raise leaves the
  session closed, so that a second close is such a no-op. A frame that arrives while the
  session is closed is dropped and the counter keeps its value. Opening resets the counter
  to 0 and starts recording; a write that succeeds adds exactly 1 to the counter, one that
  raises adds nothing. Open, write, write, close reaches the close with counter 2, and the
  close logs a total of 2. No callback runs \<open>_open_bag\<close> while a bag is open.
\<close>

theorem session_recorder:
  "(session_closed s \<longrightarrow> close_bag ev s = (None, s)) \<and>
   (\<not> close_raises ev \<longrightarrow> fst (close_bag ev s) = None \<and> session_closed (snd (close_bag ev s))) \<and>
   (session_closed s \<longrightarrow> sensor_cb a b c d f g t fault s = s) \<and>
   (open_result ev = OpenOk \<longrightarrow>
      fst (open_bag ev s) = None \<and> msg_counter (snd (open_bag ev s)) = 0 \<and>
      bag_open (snd (open_bag ev s)) \<and> recording_active (snd (open_bag ev s))) \<and>
   (recording_active s \<and> writer s \<noteq> None \<longrightarrow>
      msg_counter (sensor_cb a b c d f g t None s) = msg_counter s + 1) \<and>
   msg_counter (sensor_cb a b c d f g t (Some k) s) = msg_counter s \<and>
   (open_result ev = OpenOk \<and> \<not> close_raises ev' \<longrightarrow>
      (let s1 = snd (open_bag ev s);
           s2 = sensor_cb a b c d f g t None s1;
           s3 = sensor_cb a' b' c' d' f' g' t' None s2;
           s4 = snd (close_bag ev' s3)
       in msg_counter s1 = 0 \<and> msg_counter s2 = 1 \<and> msg_counter s3 = 2 \<and>
          msg_counter s4 = 2 \<and> logger s4 = logger s3 @ [BagClosed 2] \<and> session_closed s4)) \<and>
   (bag_open s \<longrightarrow> opens (step interp s e) = opens s)"
proof (intro conjI impI)
  show "close_bag ev s = (None, s)" if "session_closed s"
    using that by (rule close_closed)
  show "fst (close_bag ev s) = None" and "session_closed (snd (close_bag ev s))" if "\<not> close_raises ev"
    using that by (simp_all add: close_bag_ok)
  show "sensor_cb a b c d f g t fault s = s" if "session_closed s"
    using that by (simp add: session_closed_def sensor_cb_idle)
  show "fst (open_bag ev s) = None" and "msg_counter (snd (open_bag ev s)) = 0"
    and "bag_open (snd (open_bag ev s))" and "recording_active (snd (open_bag ev s))"
    if "open_result ev = OpenOk"
    using that by (simp_all add: open_bag_ok)
  show "msg_counter (sensor_cb a b c d f g t None s) = msg_counter s + 1"
    if "recording_active s \<and> writer s \<noteq> None"
    using that by (simp add: sensor_cb_write)
  show "msg_counter (sensor_cb a b c d f g t (Some k) s) = msg_counter s"
    by (rule sensor_cb_fault)
  show "(let s1 = snd (open_bag ev s);
           s2 = sensor_cb a b c d f g t None s1;
           s3 = sensor_cb a' b' c' d' f' g' t' None s2;
           s4 = snd (close_bag ev' s3)
       in msg_counter s1 = 0 \<and> msg_counter s2 = 1 \<and> msg_counter s3 = 2 \<and>
          msg_counter s4 = 2 \<and> logger s4 = logger s3 @ [BagClosed 2] \<and> session_closed s4)"
    if "open_result ev = OpenOk \<and> \<not> close_raises ev'"
  proof -
    from that have "open_result ev = OpenOk" and "\<not> close_raises ev'" by simp_all
    then show ?thesis by (rule session_example)
  qed
  show "opens (step interp s e) = opens s" if "bag_open s"
    using that by (rule step_opens)
qed

theorem session_recorder_witness:
  "session_closed (init 3 2 2) \<and>
   close_bag \<lparr>now = 5, open_result = OpenOk, close_raises = False\<rparr> (init 3 2 2) = (None, init 3 2 2) \<and>
   sensor_cb [1] [2] [3] [4] [5] [6] 9 None (init 3 2 2) = init 3 2 2 \<and>
   open_result \<lparr>now = 5, open_result = OpenOk, close_raises = False\<rparr> = OpenOk \<and>
   \<not> close_raises \<lparr>now = 5, open_result = OpenOk, close_raises = False\<rparr> \<and>
   msg_counter (snd (close_bag \<lparr>now = 5, open_result = OpenOk, close_raises = False\<rparr>
     (sensor_cb [1] [2] [3] [4] [5] [6] 10 None
       (sensor_cb [1] [2] [3] [4] [5] [6] 9 None
         (snd (open_bag \<lparr>now = 5, open_result = OpenOk, close_raises = False\<rparr> (init 3 2 2))))))) = 2 \<and>
   logger (snd (close_bag \<lparr>now = 5, open_result = OpenOk, close_raises = False\<rparr>
     (sensor_cb [1] [2] [3] [4] [5] [6] 10 None
       (sensor_cb [1] [2] [3] [4] [5] [6] 9 None
         (snd (open_bag \<lparr>now = 5, open_result = OpenOk, close_raises = False\<rparr> (init 3 2 2))))))) =
     [BagOpened 5, BagClosed 2] \<and>
   recording_active (snd (open_bag \<lparr>now = 5, open_result = OpenOk, close_raises = False\<rparr> (init 3 2 2))) \<and>
   writer (snd (open_bag \<lparr>now = 5, open_result = OpenOk, close_raises = False\<rparr> (init 3 2 2))) \<noteq> None \<and>
   bag_open (snd (open_bag \<lparr>now = 5, open_result = OpenOk, close_raises = False\<rparr> (init 3 2 2))) \<and>
   opens (step (\<lambda>x. Inr [0, 0])
     (snd (open_bag \<lparr>now = 5, open_result = OpenOk, close_raises = False\<rparr> (init 3 2 2)))
     (SetParam True)) = 1"
  using
    session_recorder [of "init 3 2 2" "\<lparr>now = 5, open_result = OpenOk, close_raises = False\<rparr>"
      "[1]" "[2]" "[3]" "[4]" "[5]" "[6]" 9 None 0
      "\<lparr>now = 5, open_result = OpenOk, close_raises = False\<rparr>"
      "[1]" "[2]" "[3]" "[4]" "[5]" "[6]" 10 "\<lambda>x. Inr [0, 0]" "SetParam True"]
    session_recorder [of "snd (open_bag \<lparr>now = 5, open_result = OpenOk, close_raises = False\<rparr> (init 3 2 2))"
      "\<lparr>now = 5, open_result = OpenOk, close_raises = False\<rparr>"
      "[1]" "[2]" "[3]" "[4]" "[5]" "[6]" 9 None 0
      "\<lparr>now = 5, open_result = OpenOk, close_raises = False\<rparr>"
      "[1]" "[2]" "[3]" "[4]" "[5]" "[6]" 10 "\<lambda>x. Inr [0, 0]" "SetParam True"]
  by (simp add: bag_eval)

subsection \<open>The control loop\<close>

text \<open>
  C8. In autonomous mode a control tick publishes exactly one command, unless the bag
  handling at its start raised, in which case it publishes none. The command's speed is
  \<open>linear_map(raw_speed, 0.0, 1.0, -0.5, 7.0)\<close> times 1.2, its steering angle
  \<open>linear_map(raw_steer, -1.0, 1.0, -0.34, 0.34)\<close> without a gain, where
  \<open>(raw_steer, raw_speed)\<close> is what \<open>dnn_output\<close> returns.
\<close>

theorem denormalization:
  assumes "\<not> is_joy s"
  shows "\<exists>sp st.
     linear_map (snd (fst (dnn_output interp s))) 0 1 (- (5 / 10)) 7 = Inr sp \<and>
     linear_map (fst (fst (dnn_output interp s))) (- 1) 1 (- (34 / 100)) (34 / 100) = Inr st \<and>
     drive_pub (control_loop interp ev s) =
       drive_pub s @
       (if fst (sync_bag ev s) = None
        then [\<lparr>speed = sp * (12 / 10), steering_angle = st\<rparr>] else [])"
proof (intro exI conjI)
  show "linear_map (snd (fst (dnn_output interp s))) 0 1 (- (5 / 10)) 7 =
          Inr (snd (fst (dnn_output interp s)) * (75 / 10) - 5 / 10)"
    by (simp add: linear_map_total)
  show "linear_map (fst (fst (dnn_output interp s))) (- 1) 1 (- (34 / 100)) (34 / 100) =
          Inr ((fst (fst (dnn_output interp s)) + 1) / 2 * (68 / 100) - 34 / 100)"
    by (simp add: linear_map_total)
  show "drive_pub (control_loop interp ev s) =
       drive_pub s @
       (if fst (sync_bag ev s) = None
        then [\<lparr>speed = (snd (fst (dnn_output interp s)) * (75 / 10) - 5 / 10) * (12 / 10),
               steering_angle = (fst (fst (dnn_output interp s)) + 1) / 2 * (68 / 100) - 34 / 100\<rparr>]
        else [])"
    using assms by (rule control_loop_pub)
qed

theorem denormalization_witness:
  "\<not> is_joy ((init 2 1 2)\<lparr>buff_scans := [[1], [2]], buff_ts := [0, 1]\<rparr>) \<and>
   fst (dnn_output (\<lambda>x. Inr [1 / 2, 1 / 2])
     ((init 2 1 2)\<lparr>buff_scans := [[1], [2]], buff_ts := [0, 1]\<rparr>)) = (1 / 2, 1 / 2) \<and>
   drive_pub (control_loop (\<lambda>x. Inr [1 / 2, 1 / 2])
     \<lparr>now = 5, open_result = OpenOk, close_raises = False\<rparr>
     ((init 2 1 2)\<lparr>buff_scans := [[1], [2]], buff_ts := [0, 1]\<rparr>)) =
     [\<lparr>speed = 39 / 10, steering_angle = 17 / 100\<rparr>]"
  using denormalization [of "(init 2 1 2)\<lparr>buff_scans := [[1], [2]], buff_ts := [0, 1]\<rparr>"
      "\<lambda>x. Inr [1 / 2, 1 / 2]" "\<lparr>now = 5, open_result = OpenOk, close_raises = False\<rparr>"]
  by (simp add: loop_eval dnn_eval)

text \<open>
  C9. When \<open>dnn_output\<close> returns the neutral \<open>(0.0, 0.0)\<close>, the command published
  in autonomous mode has speed \<open>linear_map(0.0, 0.0, 1.0, -0.5, 7.0) * 1.2 = -0.6\<close>
  and steering angle 0 (again, unless the bag handling at the start of the tick raised):
  the neutral output is not a command of speed zero.
\<close>

theorem neutral_command:
  assumes "\<not> is_joy s" and "fst (dnn_output interp s) = (0, 0)"
  shows "linear_map 0 0 1 (- (5 / 10)) 7 = Inr (- (5 / 10)) \<and>
         linear_map 0 (- 1) 1 (- (34 / 100)) (34 / 100) = Inr 0 \<and>
         drive_pub (control_loop interp ev s) =
           drive_pub s @
           (if fst (sync_bag ev s) = None
            then [\<lparr>speed = - (6 / 10), steering_angle = 0\<rparr>] else [])"
proof (intro conjI)
  show "linear_map 0 0 1 (- (5 / 10)) 7 = Inr (- (5 / 10))"
    by (simp add: linear_map_total)
  show "linear_map 0 (- 1) 1 (- (34 / 100)) (34 / 100) = Inr 0"
    by (simp add: linear_map_total)
  show "drive_pub (control_loop interp ev s) =
           drive_pub s @
           (if fst (sync_bag ev s) = None
            then [\<lparr>speed = - (6 / 10), steering_angle = 0\<rparr>] else [])"
    using assms by (simp add: control_loop_pub)
qed

theorem neutral_command_witness:
  "\<not> is_joy (init 3 2 2) \<and>
   fst (dnn_output (\<lambda>x. Inr [1, 1]) (init 3 2 2)) = (0, 0) \<and>
   drive_pub (control_loop (\<lambda>x. Inr [1, 1])
     \<lparr>now = 5, open_result = OpenOk, close_raises = False\<rparr> (init 3 2 2)) =
     [\<lparr>speed = - (6 / 10), steering_angle = 0\<rparr>] \<and>
   \<not> is_joy ((init 2 1 2)\<lparr>buff_scans := [[1], [2]], buff_ts := [0, 1]\<rparr>) \<and>
   fst (dnn_output (\<lambda>x. Inl RuntimeError)
     ((init 2 1 2)\<lparr>buff_scans := [[1], [2]], buff_ts := [0, 1]\<rparr>)) = (0, 0) \<and>
   drive_pub (control_loop (\<lambda>x. Inl RuntimeError)
     \<lparr>now = 5, open_result = OpenOk, close_raises = False\<rparr>
     ((init 2 1 2)\<lparr>buff_scans := [[1], [2]], buff_ts := [0, 1]\<rparr>)) =
     [\<lparr>speed = - (6 / 10), steering_angle = 0\<rparr>]"
  using
    neutral_command [of "init 3 2 2" "\<lambda>x. Inr [1, 1]"
      "\<lparr>now = 5, open_result = OpenOk, close_raises = False\<rparr>"]
    neutral_command [of "(init 2 1 2)\<lparr>buff_scans := [[1], [2]], buff_ts := [0, 1]\<rparr>"
      "\<lambda>x. Inl RuntimeError" "\<lparr>now = 5, open_result = OpenOk, close_raises = False\<rparr>"]
  by (simp add: loop_eval dnn_eval)

subsection \<open>The recording state\<close>

text \<open>
  C10. The consistency of the recording state (recording needs an open bag, an open bag a
  writer) holds for the initial node and is kept by every callback; so in every node that
  a run of callbacks reaches, \<open>recording_active\<close> implies \<open>bag_open\<close> and a present
  writer, and \<open>sensor_cb\<close> has never called \<open>write\<close> on an absent writer.
\<close>

theorem recording_invariant:
  "bag_inv (init n r c) \<and>
   (bag_inv s \<longrightarrow>
      bag_inv (step interp s e) \<and> bag_inv (snd (open_bag ev s)) \<and>
      bag_inv (snd (close_bag ev s))) \<and>
   (recording_active (run interp (init n r c) evs) \<longrightarrow>
      bag_open (run interp (init n r c) evs) \<and> writer (run interp (init n r c) evs) \<noteq> None) \<and>
   \<not> absent_writer_error (run interp (init n r c) evs)"
  using run_inv [of interp n r c evs]
  by (simp add: init_inv step_inv open_bag_inv close_bag_inv) (simp add: bag_inv_def)

theorem recording_invariant_witness:
  "bag_inv (init 3 2 2) \<and>
   bag_inv (step (\<lambda>x. Inr [0, 0]) (init 3 2 2)
      (Joy [1] \<lparr>now = 5, open_result = OpenOk, close_raises = False\<rparr>)) \<and>
   recording_active (run (\<lambda>x. Inr [0, 0]) (init 3 2 2)
      [Joy [1] \<lparr>now = 5, open_result = OpenOk, close_raises = False\<rparr>,
       Synced [1] [2] [3] [4] [5] [6] 9 None]) \<and>
   bag_open (run (\<lambda>x. Inr [0, 0]) (init 3 2 2)
      [Joy [1] \<lparr>now = 5, open_result = OpenOk, close_raises = False\<rparr>,
       Synced [1] [2] [3] [4] [5] [6] 9 None]) \<and>
   writer (run (\<lambda>x. Inr [0, 0]) (init 3 2 2)
      [Joy [1] \<lparr>now = 5, open_result = OpenOk, close_raises = False\<rparr>,
       Synced [1] [2] [3] [4] [5] [6] 9 None]) \<noteq> None \<and>
   msg_counter (run (\<lambda>x. Inr [0, 0]) (init 3 2 2)
      [Joy [1] \<lparr>now = 5, open_result = OpenOk, close_raises = False\<rparr>,
       Synced [1] [2] [3] [4] [5] [6] 9 None]) = 1"
  using recording_invariant [of 3 2 2 "init 3 2 2" "\<lambda>x. Inr [0, 0]"
      "Joy [1] \<lparr>now = 5, open_result = OpenOk, close_raises = False\<rparr>"
      "\<lparr>now = 5, open_result = OpenOk, close_raises = False\<rparr>"
      "[Joy [1] \<lparr>now = 5, open_result = OpenOk, close_raises = False\<rparr>,
        Synced [1] [2] [3] [4] [5] [6] 9 None]"]
  by (simp add: run_def button_callback_def toggle_bag_def bag_eval bag_inv_def)

end
